theory Spec2Isabelle
  imports Main "HOL-Library.Word" "HOL-Library.Signed_Division"
begin

section \<open>Host engine types and constants\<close>

text \<open>
  Object identifiers are unsigned 32-bit values, attribute numbers are the engine's
  \<open>int16\<close> (read with \<open>sint\<close>), timestamps are \<open>int64\<close> microsecond counts.
  The numeric values of the type identifiers, of the invalid sentinels and of the
  relation-kind letters are those of the host engine's headers.
\<close>

type_synonym Oid = "32 word"
type_synonym AttrNumber = "16 word"
type_synonym Timestamp = "64 word"

definition InvalidOid :: Oid where
  "InvalidOid = 0"

definition OidIsValid :: "Oid \<Rightarrow> bool" where
  "OidIsValid objectId = (objectId \<noteq> InvalidOid)"

definition InvalidAttrNumber :: AttrNumber where
  "InvalidAttrNumber = 0"

definition AttributeNumberIsValid :: "AttrNumber \<Rightarrow> bool" where
  "AttributeNumberIsValid attributeNumber = (attributeNumber \<noteq> InvalidAttrNumber)"

definition TIMESTAMPOID :: Oid where
  "TIMESTAMPOID = 1114"

definition TIMESTAMPTZOID :: Oid where
  "TIMESTAMPTZOID = 1184"

definition RELKIND_RELATION :: char where
  "RELKIND_RELATION = CHR ''r''"

definition RELKIND_INDEX :: char where
  "RELKIND_INDEX = CHR ''i''"

definition RELKIND_PARTITIONED_INDEX :: char where
  "RELKIND_PARTITIONED_INDEX = CHR ''I''"

definition RELKIND_COMPOSITE_TYPE :: char where
  "RELKIND_COMPOSITE_TYPE = CHR ''c''"

definition RELPERSISTENCE_TEMP :: char where
  "RELPERSISTENCE_TEMP = CHR ''t''"

definition USECS_PER_SEC :: int where
  "USECS_PER_SEC = 1000000"

definition IMPLICIT_TIME_COLUMN_NAME :: string where
  "IMPLICIT_TIME_COLUMN_NAME = ''time''"

section \<open>Catalog rows and backend state\<close>

text \<open>One row of the catalog relation \<open>pg_implicit_columns\<close> (pg_implicit_columns.h).\<close>

record FormData_pg_implicit_columns =
  ic_relid :: Oid
  ic_attname :: string
  ic_attnum :: AttrNumber
  ic_atttypid :: Oid
  ic_visible :: bool

text \<open>The fields of \<open>pg_class\<close> and \<open>pg_attribute\<close> rows that the subsystem reads.\<close>

record FormData_pg_class =
  relname :: string
  relnamespace :: Oid
  relkind :: char
  relpersistence :: char
  relnatts :: "16 word"

record FormData_pg_attribute =
  atttypid :: Oid
  attisdropped :: bool

text \<open>An open relation handle; a \<open>NULL\<close> handle is \<open>None\<close>.\<close>

record RelationData =
  rd_id :: Oid
  rd_rel :: FormData_pg_class

definition RelationGetRelid :: "RelationData \<Rightarrow> Oid" where
  "RelationGetRelid rel = rd_id rel"

definition RelationGetNumberOfAttributes :: "RelationData \<Rightarrow> 16 word" where
  "RelationGetNumberOfAttributes rel = relnatts (rd_rel rel)"

text \<open>
  Messages are identified by the call site that emits them. A message of level
  \<open>ERROR\<close> does not return to its caller: it is the \<open>Inl\<close> result of the
  function that raises it. All other levels append to the server log. A read through
  a \<open>NULL\<close> pointer ends the backend process; it is the outcome \<open>SIGSEGV\<close>, which
  no handler catches.
\<close>

datatype elevel = DEBUG2 | DEBUG1 | NOTICE | WARNING

datatype message =
    Has_invalid_oid
  | Has_result bool
  | Attnum_invalid_oid
  | Attnum_result AttrNumber
  | Add_invalid_relation
  | Add_already_present
  | Add_done
  | Remove_invalid_relation
  | Remove_no_column
  | Remove_done
  | Remove_not_found
  | Compat_invalid_oid
  | Compat_no_table
  | Compat_not_plain
  | Compat_system
  | Compat_temp
  | Legacy_no_implicit
  | Conflict_time_column
  | Migrate_incompatible
  | Migrate_added
  | Migrate_already
  | Migrate_removed
  | Migrate_absent
  | Migrate_failed
  | Unique_violation
  | Open_no_relation
  | Open_wrong_kind
  | Invalid_attribute_number

datatype error = ERROR message | SIGSEGV

type_synonym log_entry = "elevel \<times> message \<times> Oid"

text \<open>
  The state the subsystem works on: the heap of \<open>pg_implicit_columns\<close> in storage
  order, the two system caches it consults, the host's test for a TOAST namespace,
  the server log, the relation-cache invalidations signalled so far, and the wall clock as a
  sequence of readings together with the number of readings taken.
\<close>

record backend =
  pg_implicit_columns :: "FormData_pg_implicit_columns list"
  pg_class :: "Oid \<rightharpoonup> FormData_pg_class"
  pg_attribute :: "Oid \<times> string \<rightharpoonup> FormData_pg_attribute"
  IsToastNamespace :: "Oid \<Rightarrow> bool"
  server_log :: "log_entry list"
  relcache_inval :: "Oid list"
  clock :: "nat \<Rightarrow> Timestamp"
  clock_reads :: nat

definition elog :: "elevel \<Rightarrow> message \<Rightarrow> Oid \<Rightarrow> backend \<Rightarrow> backend" where
  "elog lev msg toid s = s\<lparr>server_log := server_log s @ [(lev, msg, toid)]\<rparr>"

definition GetCurrentTimestamp :: "backend \<Rightarrow> Timestamp \<times> backend" where
  "GetCurrentTimestamp s = (clock s (clock_reads s), s\<lparr>clock_reads := Suc (clock_reads s)\<rparr>)"

definition CacheInvalidateRelcache :: "RelationData \<Rightarrow> backend \<Rightarrow> backend" where
  "CacheInvalidateRelcache rel s = s\<lparr>relcache_inval := relcache_inval s @ [rd_id rel]\<rparr>"

text \<open>
  Scans of \<open>pg_implicit_columns\<close> with one key (the table) and with two keys (the
  table and the column name). The rows that match are delivered in storage order; the
  index of the source delivers the same rows in key order, and no statement below
  depends on the order.
\<close>

definition scan_relid :: "Oid \<Rightarrow> backend \<Rightarrow> FormData_pg_implicit_columns list" where
  "scan_relid toid s = filter (\<lambda>form. ic_relid form = toid) (pg_implicit_columns s)"

definition scan_relid_attname ::
  "Oid \<Rightarrow> string \<Rightarrow> backend \<Rightarrow> FormData_pg_implicit_columns list" where
  "scan_relid_attname toid name s =
     filter (\<lambda>form. ic_relid form = toid \<and> ic_attname form = name) (pg_implicit_columns s)"

text \<open>
  Insertion maintains the unique index on \<open>(ic_relid, ic_attname)\<close>: a row whose key
  is already present is refused with an error.
\<close>

definition CatalogTupleInsert ::
  "FormData_pg_implicit_columns \<Rightarrow> backend \<Rightarrow> (error + unit) \<times> backend" where
  "CatalogTupleInsert tup s =
     (if \<exists>form \<in> set (pg_implicit_columns s).
           ic_relid form = ic_relid tup \<and> ic_attname form = ic_attname tup
      then (Inl (ERROR Unique_violation), s)
      else (Inr (), s\<lparr>pg_implicit_columns := pg_implicit_columns s @ [tup]\<rparr>))"

text \<open>Deletion removes the one stored row that the scan handed out.\<close>

definition CatalogTupleDelete :: "FormData_pg_implicit_columns \<Rightarrow> backend \<Rightarrow> backend" where
  "CatalogTupleDelete tup s = s\<lparr>pg_implicit_columns := remove1 tup (pg_implicit_columns s)\<rparr>"

section \<open>pg_implicit_columns.c\<close>

text \<open>
  The functions keep their names; the parameter that the source calls \<open>table_oid\<close>
  is written \<open>toid\<close>, because \<open>table_oid\<close> is also a field of the snapshot
  structure below.
\<close>

text \<open>The scan loop of \<open>table_has_implicit_time\<close>: stop at the first row named \<open>time\<close>.\<close>

fun has_time_loop :: "FormData_pg_implicit_columns list \<Rightarrow> bool" where
  "has_time_loop [] = False"
| "has_time_loop (form # rest) =
     (if ic_attname form = IMPLICIT_TIME_COLUMN_NAME then True else has_time_loop rest)"

definition table_has_implicit_time :: "Oid \<Rightarrow> backend \<Rightarrow> bool \<times> backend" where
  "table_has_implicit_time toid s =
     (if \<not> OidIsValid toid then (False, elog DEBUG1 Has_invalid_oid toid s)
      else let found = has_time_loop (scan_relid toid s)
           in (found, elog DEBUG1 (Has_result found) toid s))"

definition get_implicit_time_attnum :: "Oid \<Rightarrow> backend \<Rightarrow> AttrNumber \<times> backend" where
  "get_implicit_time_attnum toid s =
     (if \<not> OidIsValid toid
      then (InvalidAttrNumber, elog DEBUG1 Attnum_invalid_oid toid s)
      else let attnum = (case scan_relid_attname toid IMPLICIT_TIME_COLUMN_NAME s of
                           [] \<Rightarrow> InvalidAttrNumber
                         | form # _ \<Rightarrow> ic_attnum form)
           in (attnum, elog DEBUG1 (Attnum_result attnum) toid s))"

text \<open>
  \<open>get_current_timestamp\<close>. The host's conversion \<open>timestamptz_timestamp\<close> from
  the clock reading to a timestamp without time zone is a parameter; it may raise.
  The result of the conversion is divided by \<open>USECS_PER_SEC\<close> with C's truncating
  division and multiplied back, in 64-bit arithmetic.
\<close>

definition get_current_timestamp ::
  "(Timestamp \<Rightarrow> error + Timestamp) \<Rightarrow> backend \<Rightarrow> (error + Timestamp) \<times> backend" where
  "get_current_timestamp timestamptz_timestamp s =
     (let (now_tz, s1) = GetCurrentTimestamp s
      in case timestamptz_timestamp now_tz of
           Inl e \<Rightarrow> (Inl e, s1)
         | Inr now \<Rightarrow>
             (Inr (word_of_int ((sint now sdiv USECS_PER_SEC) * USECS_PER_SEC)), s1))"

definition add_implicit_time_column ::
  "RelationData option \<Rightarrow> backend \<Rightarrow> (error + unit) \<times> backend" where
  "add_implicit_time_column rel s =
     (case rel of
        None \<Rightarrow> (Inl (ERROR Add_invalid_relation), s)
      | Some r \<Rightarrow>
          let toid = RelationGetRelid r;
              (has, s1) = table_has_implicit_time toid s
          in if has then (Inr (), elog DEBUG1 Add_already_present toid s1)
             else
               let next_attnum = RelationGetNumberOfAttributes r + 1;
                   tup = \<lparr>ic_relid = toid,
                          ic_attname = IMPLICIT_TIME_COLUMN_NAME,
                          ic_attnum = next_attnum,
                          ic_atttypid = TIMESTAMPOID,
                          ic_visible = False\<rparr>
               in case CatalogTupleInsert tup s1 of
                    (Inl e, s2) \<Rightarrow> (Inl e, s2)
                  | (Inr _, s2) \<Rightarrow>
                      (Inr (), elog DEBUG1 Add_done toid (CacheInvalidateRelcache r s2)))"

text \<open>The delete loop of \<open>remove_implicit_time_column\<close> over the rows the scan delivers.\<close>

fun remove_loop ::
  "FormData_pg_implicit_columns list \<Rightarrow> bool \<Rightarrow> backend \<Rightarrow> bool \<times> backend" where
  "remove_loop [] found s = (found, s)"
| "remove_loop (tup # rest) found s = remove_loop rest True (CatalogTupleDelete tup s)"

definition remove_implicit_time_column ::
  "RelationData option \<Rightarrow> backend \<Rightarrow> (error + unit) \<times> backend" where
  "remove_implicit_time_column rel s =
     (case rel of
        None \<Rightarrow> (Inl (ERROR Remove_invalid_relation), s)
      | Some r \<Rightarrow>
          let toid = RelationGetRelid r;
              (has, s1) = table_has_implicit_time toid s
          in if \<not> has then (Inr (), elog WARNING Remove_no_column toid s1)
             else
               let (found, s2) =
                     remove_loop (scan_relid_attname toid IMPLICIT_TIME_COLUMN_NAME s1)
                       False s1
               in if found
                  then (Inr (), elog DEBUG1 Remove_done toid (CacheInvalidateRelcache r s2))
                  else (Inr (), elog WARNING Remove_not_found toid s2))"


text \<open>The in-memory snapshot structures of pg_implicit_columns.h.\<close>

record ImplicitColumn =
  column_name :: string
  column_type :: Oid
  attnum :: AttrNumber
  is_active :: bool
  created_time :: Timestamp

record TableImplicitInfo =
  table_oid :: Oid
  has_implicit_time :: bool
  time_attnum :: AttrNumber
  implicit_columns :: "ImplicitColumn option list"
  num_implicit_cols :: "32 word"

text \<open>A \<open>NULL\<close> name gives a \<open>NULL\<close> column; otherwise the clock is read once.\<close>

definition create_implicit_column ::
  "string option \<Rightarrow> Oid \<Rightarrow> AttrNumber \<Rightarrow> backend \<Rightarrow> ImplicitColumn option \<times> backend" where
  "create_implicit_column name type_oid att s =
     (case name of
        None \<Rightarrow> (None, s)
      | Some n \<Rightarrow>
          let (now, s1) = GetCurrentTimestamp s
          in (Some \<lparr>column_name = n, column_type = type_oid, attnum = att,
                     is_active = True, created_time = now\<rparr>, s1))"

text \<open>The collecting loop of \<open>get_table_implicit_info\<close>.\<close>

fun info_loop ::
  "FormData_pg_implicit_columns list \<Rightarrow> TableImplicitInfo \<Rightarrow> backend
     \<Rightarrow> TableImplicitInfo \<times> backend" where
  "info_loop [] info s = (info, s)"
| "info_loop (form # rest) info s =
     (let (col, s1) = create_implicit_column (Some (ic_attname form)) (ic_atttypid form)
                        (ic_attnum form) s;
          info1 = info\<lparr>implicit_columns := implicit_columns info @ [col],
                       num_implicit_cols := num_implicit_cols info + 1\<rparr>;
          info2 = (if ic_attname form = IMPLICIT_TIME_COLUMN_NAME
                   then info1\<lparr>has_implicit_time := True, time_attnum := ic_attnum form\<rparr>
                   else info1)
      in info_loop rest info2 s1)"

definition get_table_implicit_info :: "Oid \<Rightarrow> backend \<Rightarrow> TableImplicitInfo option \<times> backend" where
  "get_table_implicit_info toid s =
     (if \<not> OidIsValid toid then (None, s)
      else
        let info0 = \<lparr>table_oid = toid, has_implicit_time = False,
                     time_attnum = InvalidAttrNumber, implicit_columns = [],
                     num_implicit_cols = 0\<rparr>;
            (info, s1) = info_loop (scan_relid toid s) info0 s
        in (Some info, s1))"

definition validate_implicit_column_type :: "Oid \<Rightarrow> bool" where
  "validate_implicit_column_type type_oid =
     (type_oid = TIMESTAMPOID \<or> type_oid = TIMESTAMPTZOID)"

section \<open>pg_implicit_compat.c\<close>

text \<open>
  The host's \<open>IsSystemClass\<close> (catalog.c of the PostgreSQL 15 base):
  \<open>IsCatalogRelationOid(relid) || IsToastClass(reltuple)\<close>. The first test compares
  the identifier with \<open>FirstUnpinnedObjectId\<close>; only when it fails does the second
  one run, and that one reads \<open>reltuple->relnamespace\<close> through the pointer it is
  given.
\<close>

definition FirstUnpinnedObjectId :: Oid where
  "FirstUnpinnedObjectId = 12000"

definition IsCatalogRelationOid :: "Oid \<Rightarrow> bool" where
  "IsCatalogRelationOid relid = (relid < FirstUnpinnedObjectId)"

definition IsToastClass :: "FormData_pg_class option \<Rightarrow> backend \<Rightarrow> error + bool" where
  "IsToastClass reltuple s =
     (case reltuple of
        None \<Rightarrow> Inl SIGSEGV
      | Some classForm \<Rightarrow> Inr (IsToastNamespace s (relnamespace classForm)))"

definition IsSystemClass :: "Oid \<Rightarrow> FormData_pg_class option \<Rightarrow> backend \<Rightarrow> error + bool" where
  "IsSystemClass relid reltuple s =
     (if IsCatalogRelationOid relid then Inr True else IsToastClass reltuple s)"

text \<open>\<open>is_system_table\<close> passes \<open>NULL\<close> for the class tuple.\<close>

definition is_system_table :: "Oid \<Rightarrow> backend \<Rightarrow> error + bool" where
  "is_system_table toid s = IsSystemClass toid None s"

definition is_temporary_table :: "Oid \<Rightarrow> backend \<Rightarrow> bool" where
  "is_temporary_table toid s =
     (case pg_class s toid of
        None \<Rightarrow> False
      | Some classForm \<Rightarrow> relpersistence classForm = RELPERSISTENCE_TEMP)"

definition check_column_name_conflicts :: "Oid \<Rightarrow> backend \<Rightarrow> backend" where
  "check_column_name_conflicts toid s =
     (case pg_attribute s (toid, ''time'') of
        None \<Rightarrow> s
      | Some attrForm \<Rightarrow>
          if \<not> attisdropped attrForm \<and> atttypid attrForm \<noteq> TIMESTAMPOID
          then elog WARNING Conflict_time_column toid s
          else s)"

definition check_backward_compatibility ::
  "Oid \<Rightarrow> backend \<Rightarrow> (error + bool) \<times> backend" where
  "check_backward_compatibility toid s =
     (let is_compatible = True
      in if \<not> OidIsValid toid then (Inr False, elog WARNING Compat_invalid_oid toid s)
         else case pg_class s toid of
                None \<Rightarrow> (Inr False, elog WARNING Compat_no_table toid s)
              | Some classForm \<Rightarrow>
                  if relkind classForm \<noteq> RELKIND_RELATION
                  then (Inr is_compatible, elog DEBUG1 Compat_not_plain toid s)
                  else case is_system_table toid s of
                         Inl e \<Rightarrow> (Inl e, s)
                       | Inr True \<Rightarrow> (Inr is_compatible, elog DEBUG1 Compat_system toid s)
                       | Inr False \<Rightarrow>
                           let s1 = (if is_temporary_table toid s
                                     then elog DEBUG1 Compat_temp toid s else s)
                           in (Inr is_compatible, check_column_name_conflicts toid s1))"

text \<open>
  \<open>ensure_legacy_behavior\<close>: for a table without implicit time column it runs the
  collision check directly.
\<close>

definition ensure_legacy_behavior :: "Oid \<Rightarrow> backend \<Rightarrow> backend" where
  "ensure_legacy_behavior toid s =
     (let (has, s1) = table_has_implicit_time toid s
      in if \<not> has
         then check_column_name_conflicts toid (elog DEBUG2 Legacy_no_implicit toid s1)
         else s1)"

text \<open>
  The host's \<open>table_open\<close>: it raises for a relation that does not exist and for
  indexes and composite types, and otherwise returns the handle.
\<close>

definition table_open :: "Oid \<Rightarrow> backend \<Rightarrow> error + RelationData" where
  "table_open toid s =
     (case pg_class s toid of
        None \<Rightarrow> Inl (ERROR Open_no_relation)
      | Some classForm \<Rightarrow>
          if relkind classForm = RELKIND_INDEX
             \<or> relkind classForm = RELKIND_PARTITIONED_INDEX
             \<or> relkind classForm = RELKIND_COMPOSITE_TYPE
          then Inl (ERROR Open_wrong_kind)
          else Inr \<lparr>rd_id = toid, rd_rel = classForm\<rparr>)"

text \<open>
  \<open>migrate_existing_table\<close>. An error raised inside the guarded block is caught and
  replaced by the migration error, which is raised in turn. The compatibility check
  runs before the guarded block.
\<close>

definition migrate_existing_table ::
  "Oid \<Rightarrow> bool \<Rightarrow> backend \<Rightarrow> (error + bool) \<times> backend" where
  "migrate_existing_table toid add_implicit_time s =
     (let (checked, s1) = check_backward_compatibility toid s
      in case checked of
           Inl e \<Rightarrow> (Inl e, s1)
         | Inr compatible \<Rightarrow>
         if \<not> compatible then (Inl (ERROR Migrate_incompatible), s1)
         else case table_open toid s1 of
                Inl e \<Rightarrow> (Inl e, s1)
              | Inr rel \<Rightarrow>
                  let (body, s4) =
                        (if add_implicit_time then
                           let (has, s2) = table_has_implicit_time toid s1
                           in if \<not> has then
                                (case add_implicit_time_column (Some rel) s2 of
                                   (Inl e, s3) \<Rightarrow> (Inl e, s3)
                                 | (Inr _, s3) \<Rightarrow>
                                     (Inr True, elog NOTICE Migrate_added toid s3))
                              else (Inr True, elog WARNING Migrate_already toid s2)
                         else
                           let (has, s2) = table_has_implicit_time toid s1
                           in if has then
                                (case remove_implicit_time_column (Some rel) s2 of
                                   (Inl e, s3) \<Rightarrow> (Inl e, s3)
                                 | (Inr _, s3) \<Rightarrow>
                                     (Inr True, elog NOTICE Migrate_removed toid s3))
                              else (Inr True, elog WARNING Migrate_absent toid s2))
                  in case body of
                       Inl e \<Rightarrow> (Inl (ERROR Migrate_failed), s4)
                     | Inr success \<Rightarrow> (Inr success, s4))"

section \<open>execScan.c\<close>

text \<open>
  A tuple slot: the empty flag, one entry per attribute of its descriptor (\<open>None\<close>
  for an SQL null), and what the memory in front of the slot's value and null arrays
  holds, indexed by the attribute number that reaches it. A \<open>NULL\<close> slot pointer is
  \<open>None\<close>.
\<close>

type_synonym Datum = "64 word"

record TupleTableSlot =
  tts_empty :: bool
  tts_attrs :: "Datum option list"
  tts_outside :: "int \<Rightarrow> Datum \<times> bool"

record ScanState =
  ss_currentRelation :: "RelationData option"

definition TupIsNull :: "TupleTableSlot option \<Rightarrow> bool" where
  "TupIsNull slot = (case slot of None \<Rightarrow> True | Some sl \<Rightarrow> tts_empty sl)"

text \<open>
  The host's \<open>slot_getattr\<close> (tuptable.h and execTuples.c of the PostgreSQL 15 base).
  An attribute number above the descriptor's count is the error "invalid attribute
  number". A number from 1 to that count gives the attribute's value and null flag. A
  number below 1 is only asserted against in debugging builds: the function reads the
  two arrays at index \<open>attnum - 1\<close>, in front of their first element, and returns what
  is there.
\<close>

definition slot_getattr :: "TupleTableSlot \<Rightarrow> AttrNumber \<Rightarrow> error + (Datum \<times> bool)" where
  "slot_getattr sl n =
     (if int (length (tts_attrs sl)) < sint n then Inl (ERROR Invalid_attribute_number)
      else if 0 < sint n
      then (case tts_attrs sl ! (nat (sint n) - 1) of
              None \<Rightarrow> Inr (0, True)
            | Some d \<Rightarrow> Inr (d, False))
      else Inr (tts_outside sl (sint n)))"

text \<open>
  \<open>ExecScanWithImplicitColumns\<close>. The second argument is the slot that the standard
  scan \<open>ExecScan\<close> returned for this node.
\<close>

definition ExecScanWithImplicitColumns ::
  "ScanState \<Rightarrow> TupleTableSlot option \<Rightarrow> backend
     \<Rightarrow> (error + TupleTableSlot option) \<times> backend" where
  "ExecScanWithImplicitColumns node scanned s =
     (let slot = scanned
      in case slot of
           None \<Rightarrow> (Inr slot, s)
         | Some sl \<Rightarrow>
             if TupIsNull slot then (Inr slot, s)
             else case ss_currentRelation node of
                    None \<Rightarrow> (Inr slot, s)
                  | Some relation \<Rightarrow>
                      let toid = RelationGetRelid relation;
                          (has, s1) = table_has_implicit_time toid s
                      in if has then
                           let (time_attnum, s2) = get_implicit_time_attnum toid s1
                           in if AttributeNumberIsValid time_attnum then
                                (case slot_getattr sl time_attnum of
                                   Inl e \<Rightarrow> (Inl e, s2)
                                 | Inr (time_datum, isnull) \<Rightarrow> (Inr slot, s2))
                              else (Inr slot, s2)
                         else (Inr slot, s1))"

section \<open>Wildcard projection\<close>

text \<open>
  A row on its way to the caller: its attributes in order, each with its attribute
  number and its value (\<open>None\<close> for an SQL null).
\<close>

type_synonym row = "(AttrNumber \<times> Datum option) list"

text \<open>
  Modelled from the spec: the implicit attribute numbers that the visibility filter
  of section 4.4 knows for a table, those of the table's descriptors with
  \<open>visible = false\<close>. The code that expands a wildcard and shapes the result row is
  not among the source files.
\<close>

definition hidden_attnums :: "Oid \<Rightarrow> backend \<Rightarrow> AttrNumber list" where
  "hidden_attnums toid s =
     map ic_attnum (filter (\<lambda>form. \<not> ic_visible form) (scan_relid toid s))"

text \<open>
  Modelled from the spec: the visibility filter of section 4.4, which is not among
  the source files: "given a row about to be returned to a wildcard-projection caller,
  suppress any attribute whose number equals a known implicit attribute number with
  visible = false for that table".
\<close>

definition wildcard_projection :: "Oid \<Rightarrow> backend \<Rightarrow> row \<Rightarrow> row" where
  "wildcard_projection toid s r =
     filter (\<lambda>attr. fst attr \<notin> set (hidden_attnums toid s)) r"

text \<open>
  Modelled from the spec: an explicit, non-wildcard reference of section 4.4, which
  "must not suppress the attribute": it reads the attribute with the given number
  from the row and does not pass through the filter. The code is not among the source
  files.
\<close>

definition explicit_reference :: "row \<Rightarrow> AttrNumber \<Rightarrow> Datum option option" where
  "explicit_reference r n = map_of r n"

text \<open>
  Modelled from the spec: the physical row of section 4.3, the declared values at
  attribute numbers 1 to N followed by the implicit value at attribute number N + 1.
  The code that builds it is not among the source files.
\<close>

definition physical_row :: "Datum option list \<Rightarrow> Datum option \<Rightarrow> row" where
  "physical_row declared implicit =
     zip (map of_nat [1 ..< Suc (length declared)]) declared
       @ [(of_nat (Suc (length declared)), implicit)]"

section \<open>Derived notions used in the statements\<close>

text \<open>The descriptors of the implicit time column recorded for a table.\<close>

definition time_descriptors :: "Oid \<Rightarrow> backend \<Rightarrow> FormData_pg_implicit_columns list" where
  "time_descriptors toid s = scan_relid_attname toid IMPLICIT_TIME_COLUMN_NAME s"


text \<open>The unique index on \<open>(ic_relid, ic_attname)\<close> holds in a state.\<close>

definition unique_index :: "backend \<Rightarrow> bool" where
  "unique_index s =
     distinct (map (\<lambda>form. (ic_relid form, ic_attname form)) (pg_implicit_columns s))"

section \<open>Example states\<close>

text \<open>
  A user table \<open>orders(id, amount)\<close> with two declared columns, and a state in which
  it has no implicit column yet.
\<close>

definition orders_class :: FormData_pg_class where
  "orders_class = \<lparr>relname = ''orders'', relnamespace = 2200, relkind = CHR ''r'',
                    relpersistence = CHR ''p'', relnatts = 2\<rparr>"

definition orders_rel :: RelationData where
  "orders_rel = \<lparr>rd_id = 16384, rd_rel = orders_class\<rparr>"

definition fresh_backend :: backend where
  "fresh_backend =
     \<lparr>pg_implicit_columns = [],
      pg_class = [16384 \<mapsto> orders_class],
      pg_attribute = Map.empty,
      IsToastNamespace = (\<lambda>namespaceId. namespaceId = 99),
      server_log = [],
      relcache_inval = [],
      clock = (\<lambda>n. 0),
      clock_reads = 0\<rparr>"

text \<open>
  The same table after it has gained its implicit time column at attribute number 3,
  next to a descriptor that belongs to another table.
\<close>

definition orders_backend :: backend where
  "orders_backend =
     fresh_backend\<lparr>pg_implicit_columns :=
       [\<lparr>ic_relid = 16384, ic_attname = ''time'', ic_attnum = 3,
          ic_atttypid = 1114, ic_visible = False\<rparr>,
        \<lparr>ic_relid = 16385, ic_attname = ''time'', ic_attnum = 2,
          ic_atttypid = 1114, ic_visible = False\<rparr>]\<rparr>"

text \<open>
  The table \<open>orders\<close> when it declares a column named \<open>time\<close> of type \<open>int4\<close>
  (type identifier 23), not dropped.
\<close>

definition conflict_backend :: backend where
  "conflict_backend =
     fresh_backend\<lparr>pg_attribute :=
       [(16384, ''time'') \<mapsto> \<lparr>atttypid = 23, attisdropped = False\<rparr>]\<rparr>"

text \<open>
  A clock that reads 1.999999 seconds after the epoch, and a conversion that keeps
  the reading as it is (a session in UTC).
\<close>

definition late_backend :: backend where
  "late_backend = fresh_backend\<lparr>clock := (\<lambda>n. 1999999)\<rparr>"

definition utc_conversion :: "Timestamp \<Rightarrow> error + Timestamp" where
  "utc_conversion now_tz = Inr now_tz"


section \<open>Facts about the catalog primitives\<close>

lemma has_time_loop_iff:
  "has_time_loop rows = (\<exists>form \<in> set rows. ic_attname form = IMPLICIT_TIME_COLUMN_NAME)"
  by (induction rows) auto

lemma has_time_loop_scan:
  "has_time_loop (scan_relid toid s) = (time_descriptors toid s \<noteq> [])"
  by (auto simp: has_time_loop_iff scan_relid_def time_descriptors_def
      scan_relid_attname_def filter_empty_conv)

lemma table_has_implicit_time_fst:
  "fst (table_has_implicit_time toid s) =
     (OidIsValid toid \<and> time_descriptors toid s \<noteq> [])"
  by (simp add: table_has_implicit_time_def Let_def has_time_loop_scan)

lemma table_has_implicit_time_catalog [simp]:
  "pg_implicit_columns (snd (table_has_implicit_time toid s)) = pg_implicit_columns s"
  by (simp add: table_has_implicit_time_def Let_def elog_def)

lemma elog_catalog [simp]: "pg_implicit_columns (elog lev msg oid s) = pg_implicit_columns s"
  by (simp add: elog_def)

lemma inval_catalog [simp]:
  "pg_implicit_columns (CacheInvalidateRelcache r s) = pg_implicit_columns s"
  by (simp add: CacheInvalidateRelcache_def)

lemma time_descriptors_cong:
  "pg_implicit_columns s' = pg_implicit_columns s \<Longrightarrow>
   time_descriptors toid s' = time_descriptors toid s"
  by (simp add: time_descriptors_def scan_relid_attname_def)

section \<open>The unique index is maintained\<close>

text \<open>
  Both mutating operations keep the unique index on \<open>(ic_relid, ic_attname)\<close>,
  whatever their outcome, so it is an invariant of every reachable catalog.
\<close>

lemma unique_index_cong:
  "pg_implicit_columns s' = pg_implicit_columns s \<Longrightarrow> unique_index s' = unique_index s"
  by (simp add: unique_index_def)

lemma CatalogTupleInsert_unique_index:
  assumes "unique_index s"
  shows "unique_index (snd (CatalogTupleInsert tup s))"
  using assms by (auto simp: CatalogTupleInsert_def unique_index_def)

lemma add_implicit_time_column_unique_index:
  assumes "unique_index s"
  shows "unique_index (snd (add_implicit_time_column rel s))"
proof (cases rel)
  case None
  with assms show ?thesis by (simp add: add_implicit_time_column_def)
next
  case (Some r)
  let ?s1 = "snd (table_has_implicit_time (rd_id r) s)"
  have u1: "unique_index ?s1"
    using assms by (simp add: unique_index_cong [of ?s1 s])
  have ins: "unique_index (snd (CatalogTupleInsert tup ?s1))" for tup
    by (rule CatalogTupleInsert_unique_index [OF u1])
  show ?thesis
    using Some u1 ins
    by (simp add: add_implicit_time_column_def RelationGetRelid_def Let_def case_prod_beta
        unique_index_def split: sum.splits)
qed

lemma distinct_map_remove1:
  "distinct (map key xs) \<Longrightarrow> distinct (map key (remove1 x xs))"
proof (induction xs)
  case Nil
  then show ?case by simp
next
  case (Cons y ys)
  have "set (remove1 x ys) \<subseteq> set ys" by (rule set_remove1_subset)
  with Cons show ?case by auto
qed

lemma remove_loop_unique_index:
  "unique_index s \<Longrightarrow> unique_index (snd (remove_loop ts found s))"
proof (induction ts arbitrary: found s)
  case Nil
  then show ?case by simp
next
  case (Cons t ts)
  have "unique_index (CatalogTupleDelete t s)"
    using Cons.prems by (simp add: CatalogTupleDelete_def unique_index_def distinct_map_remove1)
  from Cons.IH [OF this] show ?case by simp
qed

lemma remove_implicit_time_column_unique_index:
  assumes "unique_index s"
  shows "unique_index (snd (remove_implicit_time_column rel s))"
proof (cases rel)
  case None
  with assms show ?thesis by (simp add: remove_implicit_time_column_def)
next
  case (Some r)
  let ?s1 = "snd (table_has_implicit_time (rd_id r) s)"
  have u1: "unique_index ?s1"
    using assms by (simp add: unique_index_cong [of ?s1 s])
  have lp: "unique_index (snd (remove_loop ts False ?s1))" for ts
    by (rule remove_loop_unique_index [OF u1])
  show ?thesis
    using Some u1 lp
    by (simp add: remove_implicit_time_column_def RelationGetRelid_def Let_def case_prod_beta
        unique_index_def)
qed

section \<open>Attribute number of a new descriptor\<close>

lemma sint_succ16:
  fixes n :: "16 word"
  assumes "sint n < 32767"
  shows "sint (n + 1) = sint n + 1"
proof -
  have lo: "- (2 ^ 15) \<le> sint n" using sint_ge [of n] by simp
  have "sint (n + 1) = signed_take_bit 15 (sint n + 1)"
    by (simp add: sint_word_ariths)
  also have "\<dots> = sint n + 1"
    using lo assms by (intro signed_take_bit_int_eq_self) simp_all
  finally show ?thesis .
qed

lemma CatalogTupleInsert_fresh:
  assumes "\<forall>form \<in> set (pg_implicit_columns s).
             \<not> (ic_relid form = ic_relid tup \<and> ic_attname form = ic_attname tup)"
  shows "CatalogTupleInsert tup s = (Inr (), s\<lparr>pg_implicit_columns := pg_implicit_columns s @ [tup]\<rparr>)"
  using assms by (auto simp: CatalogTupleInsert_def)

lemma time_descriptors_empty_iff:
  "(time_descriptors toid s = []) =
     (\<forall>form \<in> set (pg_implicit_columns s).
         \<not> (ic_relid form = toid \<and> ic_attname form = IMPLICIT_TIME_COLUMN_NAME))"
  by (simp add: time_descriptors_def scan_relid_attname_def filter_empty_conv)

lemma add_implicit_time_column_fresh:
  assumes "time_descriptors (rd_id r) s = []"
  shows "add_implicit_time_column (Some r) s =
     (Inr (),
      elog DEBUG1 Add_done (rd_id r)
        (CacheInvalidateRelcache r
          ((snd (table_has_implicit_time (rd_id r) s))
             \<lparr>pg_implicit_columns := pg_implicit_columns s @
                [\<lparr>ic_relid = rd_id r, ic_attname = IMPLICIT_TIME_COLUMN_NAME,
                  ic_attnum = RelationGetNumberOfAttributes r + 1,
                  ic_atttypid = TIMESTAMPOID, ic_visible = False\<rparr>]\<rparr>)))"
proof -
  obtain has s1 where hs: "table_has_implicit_time (rd_id r) s = (has, s1)"
    by (cases "table_has_implicit_time (rd_id r) s")
  have "has = fst (table_has_implicit_time (rd_id r) s)" using hs by simp
  then have nh: "\<not> has" using assms by (simp add: table_has_implicit_time_fst)
  have cat: "pg_implicit_columns s1 = pg_implicit_columns s"
    using table_has_implicit_time_catalog [of "rd_id r" s] hs by simp
  let ?tup = "\<lparr>ic_relid = rd_id r, ic_attname = IMPLICIT_TIME_COLUMN_NAME,
                  ic_attnum = RelationGetNumberOfAttributes r + 1,
                  ic_atttypid = TIMESTAMPOID, ic_visible = False\<rparr>"
  have "\<forall>form \<in> set (pg_implicit_columns s1).
             \<not> (ic_relid form = ic_relid ?tup \<and> ic_attname form = ic_attname ?tup)"
    using assms cat by (simp add: time_descriptors_empty_iff)
  then have ins: "CatalogTupleInsert ?tup s1 =
      (Inr (), s1\<lparr>pg_implicit_columns := pg_implicit_columns s1 @ [?tup]\<rparr>)"
    by (rule CatalogTupleInsert_fresh)
  show ?thesis
    using hs nh ins cat
    by (simp add: add_implicit_time_column_def RelationGetRelid_def Let_def)
qed

text \<open>
  Claim C1. When \<open>add_implicit_time_column\<close> records a new descriptor for a table
  (the table has none yet), the call succeeds, appends exactly one row, and the row's
  attribute number is the table's declared attribute count plus 1 in the engine's
  16-bit arithmetic. Read as integers this is N + 1 for every count N below the
  \<open>int16\<close> maximum, and a table with 0 declared columns gets attribute number 1.
\<close>

theorem add_assigns_declared_count_plus_one:
  assumes "time_descriptors (rd_id r) s = []"
  shows "\<exists>d s'. add_implicit_time_column (Some r) s = (Inr (), s')
           \<and> pg_implicit_columns s' = pg_implicit_columns s @ [d]
           \<and> ic_relid d = rd_id r
           \<and> ic_attname d = IMPLICIT_TIME_COLUMN_NAME
           \<and> ic_attnum d = RelationGetNumberOfAttributes r + 1
           \<and> (sint (RelationGetNumberOfAttributes r) < 32767 \<longrightarrow>
                sint (ic_attnum d) = sint (RelationGetNumberOfAttributes r) + 1)
           \<and> (RelationGetNumberOfAttributes r = 0 \<longrightarrow> ic_attnum d = 1)"
proof -
  let ?d = "\<lparr>ic_relid = rd_id r, ic_attname = IMPLICIT_TIME_COLUMN_NAME,
             ic_attnum = RelationGetNumberOfAttributes r + 1,
             ic_atttypid = TIMESTAMPOID, ic_visible = False\<rparr>"
  let ?s' = "elog DEBUG1 Add_done (rd_id r)
        (CacheInvalidateRelcache r
          ((snd (table_has_implicit_time (rd_id r) s))
             \<lparr>pg_implicit_columns := pg_implicit_columns s @ [?d]\<rparr>))"
  have run: "add_implicit_time_column (Some r) s = (Inr (), ?s')"
    by (rule add_implicit_time_column_fresh [OF assms])
  have cat: "pg_implicit_columns ?s' = pg_implicit_columns s @ [?d]"
    by simp
  have fields: "ic_relid ?d = rd_id r" "ic_attname ?d = IMPLICIT_TIME_COLUMN_NAME"
    "ic_attnum ?d = RelationGetNumberOfAttributes r + 1"
    by simp_all
  have int_reading: "sint (RelationGetNumberOfAttributes r) < 32767 \<longrightarrow>
      sint (ic_attnum ?d) = sint (RelationGetNumberOfAttributes r) + 1"
    by (simp add: sint_succ16)
  have zero: "RelationGetNumberOfAttributes r = 0 \<longrightarrow> ic_attnum ?d = 1"
    by simp
  from run cat fields int_reading zero show ?thesis
    by blast
qed

theorem add_assigns_declared_count_plus_one_witness:
  "time_descriptors (rd_id orders_rel) fresh_backend = []
   \<and> map ic_attnum (pg_implicit_columns (snd (add_implicit_time_column (Some orders_rel) fresh_backend))) = [3]"
proof -
  have h: "time_descriptors (rd_id orders_rel) fresh_backend = []"
    by (simp add: time_descriptors_def scan_relid_attname_def fresh_backend_def)
  from add_assigns_declared_count_plus_one [OF h]
  obtain d s' where r: "add_implicit_time_column (Some orders_rel) fresh_backend = (Inr (), s')"
    and c: "pg_implicit_columns s' = pg_implicit_columns fresh_backend @ [d]"
    and a: "ic_attnum d = RelationGetNumberOfAttributes orders_rel + 1"
    by blast
  have "RelationGetNumberOfAttributes orders_rel + 1 = 3"
    by (simp add: RelationGetNumberOfAttributes_def orders_rel_def orders_class_def)
  with r c a h show ?thesis
    by (simp add: fresh_backend_def)
qed

section \<open>Idempotence of adding\<close>

lemma table_has_implicit_time_valid:
  assumes "OidIsValid toid"
  shows "table_has_implicit_time toid s =
           (time_descriptors toid s \<noteq> [],
            elog DEBUG1 (Has_result (time_descriptors toid s \<noteq> [])) toid s)"
  using assms by (simp add: table_has_implicit_time_def Let_def has_time_loop_scan)

lemma add_implicit_time_column_present:
  assumes "OidIsValid (rd_id r)" and "time_descriptors (rd_id r) s \<noteq> []"
  shows "add_implicit_time_column (Some r) s =
           (Inr (), s\<lparr>server_log := server_log s @
                        [(DEBUG1, Has_result True, rd_id r),
                         (DEBUG1, Add_already_present, rd_id r)]\<rparr>)"
  using assms
  by (simp add: add_implicit_time_column_def RelationGetRelid_def Let_def
      table_has_implicit_time_valid elog_def)

lemma filter_key_le_one:
  assumes "distinct (map key xs)"
  shows "length (filter (\<lambda>x. key x = k) xs) \<le> 1"
  using assms
proof (induction xs)
  case Nil
  then show ?case by simp
next
  case (Cons x xs)
  show ?case
  proof (cases "key x = k")
    case True
    have "key x \<notin> key ` set xs"
      using Cons.prems by simp
    then have "\<forall>y \<in> set xs. key y \<noteq> k"
      unfolding True [symmetric] by (metis imageI)
    then have "filter (\<lambda>x. key x = k) xs = []" by (simp add: filter_empty_conv)
    with True show ?thesis by simp
  next
    case False
    with Cons show ?thesis by simp
  qed
qed

lemma unique_index_time_descriptors:
  assumes "unique_index s"
  shows "length (time_descriptors toid s) \<le> 1"
proof -
  have "length (filter (\<lambda>form. (ic_relid form, ic_attname form) = (toid, IMPLICIT_TIME_COLUMN_NAME))
          (pg_implicit_columns s)) \<le> 1"
    using assms unfolding unique_index_def by (rule filter_key_le_one)
  then show ?thesis
    by (simp add: time_descriptors_def scan_relid_attname_def)
qed

lemma time_descriptors_after_add:
  assumes "time_descriptors (rd_id r) s = []"
  shows "time_descriptors (rd_id r) (snd (add_implicit_time_column (Some r) s)) =
           [\<lparr>ic_relid = rd_id r, ic_attname = IMPLICIT_TIME_COLUMN_NAME,
             ic_attnum = RelationGetNumberOfAttributes r + 1,
             ic_atttypid = TIMESTAMPOID, ic_visible = False\<rparr>]"
proof -
  have "filter (\<lambda>form. ic_relid form = rd_id r \<and> ic_attname form = IMPLICIT_TIME_COLUMN_NAME)
          (pg_implicit_columns s) = []"
    using assms by (simp add: time_descriptors_def scan_relid_attname_def)
  then show ?thesis
    by (simp add: add_implicit_time_column_fresh [OF assms] time_descriptors_def
        scan_relid_attname_def)
qed

text \<open>
  Claim C2. \<open>add_implicit_time_column\<close> is idempotent. If the table already has an
  implicit time descriptor, the call returns normally and changes nothing but the
  server log, to which it appends the lookup's entry and its own \<open>DEBUG1\<close> entry.
  Hence two calls in a row on the same table both return normally, the second changes
  only the log, and the table ends with exactly one implicit time descriptor.
\<close>

theorem add_implicit_time_column_idempotent:
  assumes valid: "OidIsValid (rd_id r)" and uniq: "unique_index s"
  shows "(time_descriptors (rd_id r) s \<noteq> [] \<longrightarrow>
            add_implicit_time_column (Some r) s =
              (Inr (), s\<lparr>server_log := server_log s @
                           [(DEBUG1, Has_result True, rd_id r),
                            (DEBUG1, Add_already_present, rd_id r)]\<rparr>))
       \<and> (\<exists>s1 s2. add_implicit_time_column (Some r) s = (Inr (), s1)
             \<and> add_implicit_time_column (Some r) s1 = (Inr (), s2)
             \<and> s2 = s1\<lparr>server_log := server_log s1 @
                           [(DEBUG1, Has_result True, rd_id r),
                            (DEBUG1, Add_already_present, rd_id r)]\<rparr>
             \<and> length (time_descriptors (rd_id r) s2) = 1)"
proof (intro conjI impI)
  assume "time_descriptors (rd_id r) s \<noteq> []"
  then show "add_implicit_time_column (Some r) s =
              (Inr (), s\<lparr>server_log := server_log s @
                           [(DEBUG1, Has_result True, rd_id r),
                            (DEBUG1, Add_already_present, rd_id r)]\<rparr>)"
    by (rule add_implicit_time_column_present [OF valid])
next
  obtain res s1 where first: "add_implicit_time_column (Some r) s = (res, s1)"
    by (cases "add_implicit_time_column (Some r) s")
  have one: "res = Inr () \<and> length (time_descriptors (rd_id r) s1) = 1"
  proof (cases "time_descriptors (rd_id r) s = []")
    case True
    have "res = Inr ()"
      using first add_implicit_time_column_fresh [OF True] by simp
    moreover have "length (time_descriptors (rd_id r) s1) = 1"
      using time_descriptors_after_add [OF True] first by simp
    ultimately show ?thesis by simp
  next
    case False
    have eq: "(res, s1) = (Inr (), s\<lparr>server_log := server_log s @
                           [(DEBUG1, Has_result True, rd_id r),
                            (DEBUG1, Add_already_present, rd_id r)]\<rparr>)"
      using add_implicit_time_column_present [OF valid False] first by simp
    then have same: "time_descriptors (rd_id r) s1 = time_descriptors (rd_id r) s"
      by (simp add: time_descriptors_def scan_relid_attname_def)
    have le: "length (time_descriptors (rd_id r) s) \<le> 1"
      by (rule unique_index_time_descriptors [OF uniq])
    have "length (time_descriptors (rd_id r) s) \<noteq> 0"
      using False by simp
    with le have "length (time_descriptors (rd_id r) s) = 1" by linarith
    moreover from eq have "res = Inr ()" by simp
    ultimately show ?thesis using same by simp
  qed
  then have ne: "time_descriptors (rd_id r) s1 \<noteq> []" by auto
  let ?s2 = "s1\<lparr>server_log := server_log s1 @
                           [(DEBUG1, Has_result True, rd_id r),
                            (DEBUG1, Add_already_present, rd_id r)]\<rparr>"
  have second: "add_implicit_time_column (Some r) s1 = (Inr (), ?s2)"
    by (rule add_implicit_time_column_present [OF valid ne])
  have "time_descriptors (rd_id r) ?s2 = time_descriptors (rd_id r) s1"
    by (simp add: time_descriptors_def scan_relid_attname_def)
  with one have "length (time_descriptors (rd_id r) ?s2) = 1" by simp
  with first one second
  show "\<exists>s1 s2. add_implicit_time_column (Some r) s = (Inr (), s1)
             \<and> add_implicit_time_column (Some r) s1 = (Inr (), s2)
             \<and> s2 = s1\<lparr>server_log := server_log s1 @
                           [(DEBUG1, Has_result True, rd_id r),
                            (DEBUG1, Add_already_present, rd_id r)]\<rparr>
             \<and> length (time_descriptors (rd_id r) s2) = 1"
    by blast
qed

theorem add_implicit_time_column_idempotent_witness:
  "OidIsValid (rd_id orders_rel) \<and> unique_index fresh_backend
   \<and> length (pg_implicit_columns
        (snd (add_implicit_time_column (Some orders_rel)
           (snd (add_implicit_time_column (Some orders_rel) fresh_backend))))) = 1"
proof -
  have v: "OidIsValid (rd_id orders_rel)"
    by (simp add: OidIsValid_def InvalidOid_def orders_rel_def)
  have u: "unique_index fresh_backend"
    by (simp add: unique_index_def fresh_backend_def)
  from add_implicit_time_column_idempotent [OF v u]
  obtain s1 s2 where
    a1: "add_implicit_time_column (Some orders_rel) fresh_backend = (Inr (), s1)" and
    a2: "add_implicit_time_column (Some orders_rel) s1 = (Inr (), s2)" and
    l: "length (time_descriptors (rd_id orders_rel) s2) = 1"
    by blast
  have cat: "pg_implicit_columns s2 = pg_implicit_columns s1"
    using a2  add_implicit_time_column_idempotent [OF v u] a1 by auto
  have "time_descriptors (rd_id orders_rel) fresh_backend = []"
    by (simp add: time_descriptors_def scan_relid_attname_def fresh_backend_def)
  from add_implicit_time_column_fresh [OF this] a1
  have "length (pg_implicit_columns s1) = 1"
    by (auto simp: fresh_backend_def)
  with v u a1 a2 cat show ?thesis by simp
qed

section \<open>Type and visibility of a new descriptor\<close>

text \<open>
  Claim C3 as stated does not hold: the descriptor that \<open>add_implicit_time_column\<close>
  inserts carries the type identifier \<open>TIMESTAMPOID\<close>, the timestamp type without time
  zone, which is not \<open>TIMESTAMPTZOID\<close>.
\<close>

theorem add_descriptor_type_counterexample:
  "map ic_atttypid (pg_implicit_columns
      (snd (add_implicit_time_column (Some orders_rel) fresh_backend))) = [TIMESTAMPOID]
   \<and> TIMESTAMPOID \<noteq> TIMESTAMPTZOID"
proof -
  have "time_descriptors (rd_id orders_rel) fresh_backend = []"
    by (simp add: time_descriptors_def scan_relid_attname_def fresh_backend_def)
  from add_implicit_time_column_fresh [OF this] show ?thesis
    by (simp add: fresh_backend_def TIMESTAMPOID_def TIMESTAMPTZOID_def)
qed

text \<open>
  Claim C3, amended. When \<open>add_implicit_time_column\<close> inserts a new descriptor, the
  descriptor's type identifier is \<open>TIMESTAMPOID\<close> (timestamp without time zone, a type
  that \<open>validate_implicit_column_type\<close> accepts and that differs from the
  with-time-zone type), and its visible flag is false.
\<close>

theorem add_descriptor_type_and_visibility:
  assumes "time_descriptors (rd_id r) s = []"
  shows "\<exists>d s'. add_implicit_time_column (Some r) s = (Inr (), s')
           \<and> pg_implicit_columns s' = pg_implicit_columns s @ [d]
           \<and> ic_atttypid d = TIMESTAMPOID
           \<and> ic_atttypid d \<noteq> TIMESTAMPTZOID
           \<and> validate_implicit_column_type (ic_atttypid d)
           \<and> ic_visible d = False"
proof -
  let ?d = "\<lparr>ic_relid = rd_id r, ic_attname = IMPLICIT_TIME_COLUMN_NAME,
             ic_attnum = RelationGetNumberOfAttributes r + 1,
             ic_atttypid = TIMESTAMPOID, ic_visible = False\<rparr>"
  let ?s' = "elog DEBUG1 Add_done (rd_id r)
        (CacheInvalidateRelcache r
          ((snd (table_has_implicit_time (rd_id r) s))
             \<lparr>pg_implicit_columns := pg_implicit_columns s @ [?d]\<rparr>))"
  have run: "add_implicit_time_column (Some r) s = (Inr (), ?s')"
    by (rule add_implicit_time_column_fresh [OF assms])
  have cat: "pg_implicit_columns ?s' = pg_implicit_columns s @ [?d]"
    by simp
  have ty: "ic_atttypid ?d = TIMESTAMPOID" "ic_atttypid ?d \<noteq> TIMESTAMPTZOID"
    "validate_implicit_column_type (ic_atttypid ?d)"
    by (simp_all add: TIMESTAMPOID_def TIMESTAMPTZOID_def validate_implicit_column_type_def)
  have vis: "ic_visible ?d = False"
    by simp
  from run cat ty vis show ?thesis
    by blast
qed

theorem add_descriptor_type_and_visibility_witness:
  "time_descriptors (rd_id orders_rel) fresh_backend = []
   \<and> map ic_visible (pg_implicit_columns
        (snd (add_implicit_time_column (Some orders_rel) fresh_backend))) = [False]"
proof -
  have h: "time_descriptors (rd_id orders_rel) fresh_backend = []"
    by (simp add: time_descriptors_def scan_relid_attname_def fresh_backend_def)
  from add_descriptor_type_and_visibility [OF h]
  obtain d s' where
    r: "add_implicit_time_column (Some orders_rel) fresh_backend = (Inr (), s')" and
    c: "pg_implicit_columns s' = pg_implicit_columns fresh_backend @ [d]" and
    v: "ic_visible d = False"
    by blast
  from h r c v show ?thesis
    by (simp add: fresh_backend_def)
qed

section \<open>Removing the implicit time column\<close>

lemma remove_loop_eq:
  "remove_loop ts found s =
     (found \<or> ts \<noteq> [],
      s\<lparr>pg_implicit_columns := foldl (\<lambda>rows t. remove1 t rows) (pg_implicit_columns s) ts\<rparr>)"
  by (induction ts arbitrary: found s) (simp_all add: CatalogTupleDelete_def)

lemma foldl_remove1_filter:
  assumes "\<forall>y \<in> set ys. \<not> P y"
  shows "foldl (\<lambda>rows t. remove1 t rows) (ys @ xs) (filter P xs) = ys @ filter (\<lambda>x. \<not> P x) xs"
  using assms
proof (induction xs arbitrary: ys)
  case Nil
  then show ?case by simp
next
  case (Cons x xs)
  show ?case
  proof (cases "P x")
    case True
    with Cons.prems have "x \<notin> set ys" by auto
    then have "remove1 x (ys @ x # xs) = ys @ xs"
      by (simp add: remove1_append)
    with True Cons.IH [OF Cons.prems] show ?thesis by simp
  next
    case False
    with Cons.prems have "\<forall>y \<in> set (ys @ [x]). \<not> P y" by simp
    from Cons.IH [OF this] False show ?thesis by simp
  qed
qed

lemma foldl_remove1_scan:
  "foldl (\<lambda>rows t. remove1 t rows) xs (filter P xs) = filter (\<lambda>x. \<not> P x) xs"
  using foldl_remove1_filter [of "[]" P xs] by simp

lemma remove_implicit_time_column_absent:
  assumes "time_descriptors (rd_id r) s = []"
  shows "remove_implicit_time_column (Some r) s =
           (Inr (), elog WARNING Remove_no_column (rd_id r)
                      (snd (table_has_implicit_time (rd_id r) s)))"
proof -
  obtain has s1 where hs: "table_has_implicit_time (rd_id r) s = (has, s1)"
    by (cases "table_has_implicit_time (rd_id r) s")
  have "has = fst (table_has_implicit_time (rd_id r) s)" using hs by simp
  then have "\<not> has" using assms by (simp add: table_has_implicit_time_fst)
  with hs show ?thesis
    by (simp add: remove_implicit_time_column_def RelationGetRelid_def Let_def)
qed

lemma remove_implicit_time_column_present:
  assumes "OidIsValid (rd_id r)" and "time_descriptors (rd_id r) s \<noteq> []"
  shows "remove_implicit_time_column (Some r) s =
           (Inr (),
            elog DEBUG1 Remove_done (rd_id r)
              (CacheInvalidateRelcache r
                ((elog DEBUG1 (Has_result True) (rd_id r) s)
                   \<lparr>pg_implicit_columns :=
                      filter (\<lambda>form. \<not> (ic_relid form = rd_id r
                                  \<and> ic_attname form = IMPLICIT_TIME_COLUMN_NAME))
                        (pg_implicit_columns s)\<rparr>)))"
proof -
  let ?s1 = "elog DEBUG1 (Has_result True) (rd_id r) s"
  have has: "table_has_implicit_time (rd_id r) s = (True, ?s1)"
    using assms by (simp add: table_has_implicit_time_valid)
  have scan: "scan_relid_attname (rd_id r) IMPLICIT_TIME_COLUMN_NAME ?s1 =
      time_descriptors (rd_id r) s"
    by (simp add: time_descriptors_def scan_relid_attname_def)
  have loop: "remove_loop (time_descriptors (rd_id r) s) False ?s1 =
      (True, ?s1\<lparr>pg_implicit_columns :=
                      filter (\<lambda>form. \<not> (ic_relid form = rd_id r
                                  \<and> ic_attname form = IMPLICIT_TIME_COLUMN_NAME))
                        (pg_implicit_columns s)\<rparr>)"
    using assms(2)
    by (simp add: remove_loop_eq)
       (simp add: time_descriptors_def scan_relid_attname_def foldl_remove1_scan)
  show ?thesis
    by (simp add: remove_implicit_time_column_def RelationGetRelid_def Let_def has scan loop)
qed


text \<open>
  Claim C4. For an open table, \<open>remove_implicit_time_column\<close> returns normally and
  leaves the catalog without any implicit time descriptor of that table, every other
  row being kept. When the table has none to begin with, the catalog is unchanged, no
  cache invalidation is signalled and a \<open>WARNING\<close> is logged. A second call in a row
  therefore also returns normally, changes only the log, and leaves zero descriptors.
\<close>

theorem remove_implicit_time_column_deletes_all:
  assumes valid: "OidIsValid (rd_id r)"
  shows "\<exists>s1 s2.
           remove_implicit_time_column (Some r) s = (Inr (), s1)
         \<and> pg_implicit_columns s1 =
             filter (\<lambda>form. \<not> (ic_relid form = rd_id r
                                \<and> ic_attname form = IMPLICIT_TIME_COLUMN_NAME))
               (pg_implicit_columns s)
         \<and> time_descriptors (rd_id r) s1 = []
         \<and> (time_descriptors (rd_id r) s = [] \<longrightarrow>
               pg_implicit_columns s1 = pg_implicit_columns s
             \<and> relcache_inval s1 = relcache_inval s
             \<and> server_log s1 = server_log s @
                 [(DEBUG1, Has_result False, rd_id r), (WARNING, Remove_no_column, rd_id r)])
         \<and> remove_implicit_time_column (Some r) s1 = (Inr (), s2)
         \<and> s2 = s1\<lparr>server_log := server_log s1 @
                 [(DEBUG1, Has_result False, rd_id r), (WARNING, Remove_no_column, rd_id r)]\<rparr>
         \<and> time_descriptors (rd_id r) s2 = []"
proof -
  let ?keep = "\<lambda>form. \<not> (ic_relid form = rd_id r
                                \<and> ic_attname form = IMPLICIT_TIME_COLUMN_NAME)"
  have absent_run: "remove_implicit_time_column (Some r) t =
      (Inr (), t\<lparr>server_log := server_log t @
                 [(DEBUG1, Has_result False, rd_id r), (WARNING, Remove_no_column, rd_id r)]\<rparr>)"
    if "time_descriptors (rd_id r) t = []" for t
    using that valid
    by (simp add: remove_implicit_time_column_absent table_has_implicit_time_valid elog_def)
  have absent_keep: "filter ?keep (pg_implicit_columns t) = pg_implicit_columns t"
    if "time_descriptors (rd_id r) t = []" for t
    using that by (simp add: time_descriptors_empty_iff)
  obtain res s1 where first: "remove_implicit_time_column (Some r) s = (res, s1)"
    by (cases "remove_implicit_time_column (Some r) s")
  have ok: "res = Inr ()" and cat: "pg_implicit_columns s1 = filter ?keep (pg_implicit_columns s)"
    and none: "time_descriptors (rd_id r) s = [] \<longrightarrow>
               relcache_inval s1 = relcache_inval s
             \<and> server_log s1 = server_log s @
                 [(DEBUG1, Has_result False, rd_id r), (WARNING, Remove_no_column, rd_id r)]"
  proof -
    show "res = Inr ()"
    proof (cases "time_descriptors (rd_id r) s = []")
      case True
      then show ?thesis using first absent_run [OF True] by simp
    next
      case False
      then show ?thesis
        using first remove_implicit_time_column_present [OF valid False] by simp
    qed
    show "pg_implicit_columns s1 = filter ?keep (pg_implicit_columns s)"
    proof (cases "time_descriptors (rd_id r) s = []")
      case True
      from first absent_run [OF True]
      have "s1 = s\<lparr>server_log := server_log s @
                 [(DEBUG1, Has_result False, rd_id r), (WARNING, Remove_no_column, rd_id r)]\<rparr>"
        by simp
      then show ?thesis using absent_keep [OF True] by simp
    next
      case False
      have "s1 = snd (remove_implicit_time_column (Some r) s)" using first by simp
      then show ?thesis
        by (simp add: remove_implicit_time_column_present [OF valid False])
    qed
    show "time_descriptors (rd_id r) s = [] \<longrightarrow>
               relcache_inval s1 = relcache_inval s
             \<and> server_log s1 = server_log s @
                 [(DEBUG1, Has_result False, rd_id r), (WARNING, Remove_no_column, rd_id r)]"
      using first absent_run by auto
  qed
  have gone: "time_descriptors (rd_id r) s1 = []"
    by (simp add: time_descriptors_empty_iff cat)
  let ?s2 = "s1\<lparr>server_log := server_log s1 @
                 [(DEBUG1, Has_result False, rd_id r), (WARNING, Remove_no_column, rd_id r)]\<rparr>"
  have second: "remove_implicit_time_column (Some r) s1 = (Inr (), ?s2)"
    by (rule absent_run [OF gone])
  have gone2: "time_descriptors (rd_id r) ?s2 = []"
    using gone by (simp add: time_descriptors_def scan_relid_attname_def)
  have unchanged: "time_descriptors (rd_id r) s = [] \<longrightarrow>
      pg_implicit_columns s1 = pg_implicit_columns s"
    using cat absent_keep by simp
  from first ok cat gone none unchanged second gone2 show ?thesis
    by blast
qed


theorem remove_implicit_time_column_deletes_all_witness:
  "OidIsValid (rd_id orders_rel)
   \<and> map ic_relid (pg_implicit_columns
        (snd (remove_implicit_time_column (Some orders_rel) orders_backend))) = [16385]"
proof -
  have v: "OidIsValid (rd_id orders_rel)"
    by (simp add: OidIsValid_def InvalidOid_def orders_rel_def)
  from remove_implicit_time_column_deletes_all [OF v, of orders_backend]
  obtain s1 where
    r: "remove_implicit_time_column (Some orders_rel) orders_backend = (Inr (), s1)" and
    c: "pg_implicit_columns s1 =
          filter (\<lambda>form. \<not> (ic_relid form = rd_id orders_rel
                             \<and> ic_attname form = IMPLICIT_TIME_COLUMN_NAME))
            (pg_implicit_columns orders_backend)"
    by blast
  from v r c show ?thesis
    by (simp add: orders_backend_def fresh_backend_def orders_rel_def
        IMPLICIT_TIME_COLUMN_NAME_def)
qed

section \<open>Migration behind the compatibility check\<close>

lemma is_system_table_catalog:
  "IsCatalogRelationOid toid \<Longrightarrow> is_system_table toid s = Inr True"
  by (simp add: is_system_table_def IsSystemClass_def)

lemma is_system_table_user:
  "\<not> IsCatalogRelationOid toid \<Longrightarrow> is_system_table toid s = Inl SIGSEGV"
  by (simp add: is_system_table_def IsSystemClass_def IsToastClass_def)

lemma check_backward_compatibility_fails_iff:
  "(fst (check_backward_compatibility toid s) = Inr False) =
     (\<not> OidIsValid toid \<or> pg_class s toid = None)"
proof (cases "IsCatalogRelationOid toid")
  case True
  then show ?thesis
    by (simp add: check_backward_compatibility_def Let_def is_system_table_catalog
        split: option.splits)
next
  case False
  then show ?thesis
    by (simp add: check_backward_compatibility_def Let_def is_system_table_user
        split: option.splits)
qed

text \<open>
  Claim C5. The compatibility precondition fails exactly for an invalid table
  identity and for a table that does not exist. For every such table, and for both
  directions of the migration, \<open>migrate_existing_table\<close> raises its hard error, and
  the state in which it is raised differs from the initial one only by the warning
  that the check logged: no descriptor was added or removed and no cache invalidation
  was signalled.
\<close>

theorem migrate_existing_table_aborts_without_change:
  "((fst (check_backward_compatibility toid s) = Inr False) =
      (\<not> OidIsValid toid \<or> pg_class s toid = None))
   \<and> (\<not> OidIsValid toid \<or> pg_class s toid = None \<longrightarrow>
        (\<exists>s'. migrate_existing_table toid add_implicit_time s =
                  (Inl (ERROR Migrate_incompatible), s')
             \<and> pg_implicit_columns s' = pg_implicit_columns s
             \<and> relcache_inval s' = relcache_inval s
             \<and> (\<exists>msg. s' = s\<lparr>server_log := server_log s @ [(WARNING, msg, toid)]\<rparr>)))"
proof (intro conjI impI)
  show "(fst (check_backward_compatibility toid s) = Inr False) =
      (\<not> OidIsValid toid \<or> pg_class s toid = None)"
    by (rule check_backward_compatibility_fails_iff)
next
  assume bad: "\<not> OidIsValid toid \<or> pg_class s toid = None"
  let ?msg = "if \<not> OidIsValid toid then Compat_invalid_oid else Compat_no_table"
  let ?s' = "s\<lparr>server_log := server_log s @ [(WARNING, ?msg, toid)]\<rparr>"
  have chk: "check_backward_compatibility toid s = (Inr False, ?s')"
    using bad by (auto simp: check_backward_compatibility_def Let_def elog_def)
  have run: "migrate_existing_table toid add_implicit_time s =
      (Inl (ERROR Migrate_incompatible), ?s')"
    by (simp add: migrate_existing_table_def chk)
  have "pg_implicit_columns ?s' = pg_implicit_columns s"
    and "relcache_inval ?s' = relcache_inval s"
    by simp_all
  with run show "\<exists>s'. migrate_existing_table toid add_implicit_time s =
                  (Inl (ERROR Migrate_incompatible), s')
             \<and> pg_implicit_columns s' = pg_implicit_columns s
             \<and> relcache_inval s' = relcache_inval s
             \<and> (\<exists>msg. s' = s\<lparr>server_log := server_log s @ [(WARNING, msg, toid)]\<rparr>)"
    by blast
qed

theorem migrate_existing_table_aborts_without_change_witness:
  "\<not> OidIsValid 0
   \<and> fst (migrate_existing_table 0 True orders_backend) = Inl (ERROR Migrate_incompatible)
   \<and> pg_implicit_columns (snd (migrate_existing_table 0 True orders_backend)) =
       pg_implicit_columns orders_backend
   \<and> pg_class orders_backend 99 = None
   \<and> fst (migrate_existing_table 99 False orders_backend) = Inl (ERROR Migrate_incompatible)
   \<and> pg_implicit_columns (snd (migrate_existing_table 99 False orders_backend)) =
       pg_implicit_columns orders_backend"
proof -
  have h0: "\<not> OidIsValid 0"
    by (simp add: OidIsValid_def InvalidOid_def)
  have h99: "pg_class orders_backend 99 = None"
    by (simp add: orders_backend_def fresh_backend_def)
  from migrate_existing_table_aborts_without_change [of 0 orders_backend True] h0
  have a: "fst (migrate_existing_table 0 True orders_backend) = Inl (ERROR Migrate_incompatible)
   \<and> pg_implicit_columns (snd (migrate_existing_table 0 True orders_backend)) =
       pg_implicit_columns orders_backend"
    by auto
  from migrate_existing_table_aborts_without_change [of 99 orders_backend False] h99
  have b: "fst (migrate_existing_table 99 False orders_backend) = Inl (ERROR Migrate_incompatible)
   \<and> pg_implicit_columns (snd (migrate_existing_table 99 False orders_backend)) =
       pg_implicit_columns orders_backend"
    by auto
  from h0 h99 a b show ?thesis by blast
qed

section \<open>Name collision with a declared column\<close>

text \<open>
  What \<open>check_backward_compatibility\<close> does for an ordinary heap table that exists:
  a table with a catalog identifier is reported compatible as a system table; for
  every other table the system-table test reads through the \<open>NULL\<close> class tuple.
  Either way the collision check is not reached.
\<close>

lemma check_backward_compatibility_ordinary_table:
  assumes "OidIsValid toid"
    and "pg_class s toid = Some classForm"
    and "relkind classForm = RELKIND_RELATION"
  shows "check_backward_compatibility toid s =
           (if IsCatalogRelationOid toid
            then (Inr True, elog DEBUG1 Compat_system toid s)
            else (Inl SIGSEGV, s))"
  using assms
  by (simp add: check_backward_compatibility_def Let_def is_system_table_catalog
      is_system_table_user)

lemma check_backward_compatibility_never_warns_of_collision:
  assumes "(WARNING, Conflict_time_column, toid) \<notin> set (server_log s)"
  shows "(WARNING, Conflict_time_column, toid) \<notin>
           set (server_log (snd (check_backward_compatibility toid s)))"
proof (cases "IsCatalogRelationOid toid")
  case True
  with assms show ?thesis
    by (simp add: check_backward_compatibility_def Let_def is_system_table_catalog elog_def
        split: option.splits)
next
  case False
  with assms show ?thesis
    by (simp add: check_backward_compatibility_def Let_def is_system_table_user elog_def
        split: option.splits)
qed

text \<open>
  The sibling path \<open>ensure_legacy_behavior\<close> runs the same collision check and does
  log the warning.
\<close>

lemma ensure_legacy_behavior_warns:
  assumes "OidIsValid toid"
    and "time_descriptors toid s = []"
    and "pg_attribute s (toid, ''time'') = Some attrForm"
    and "\<not> attisdropped attrForm"
    and "atttypid attrForm \<noteq> TIMESTAMPOID"
  shows "ensure_legacy_behavior toid s =
           s\<lparr>server_log := server_log s @
               [(DEBUG1, Has_result False, toid),
                (DEBUG2, Legacy_no_implicit, toid),
                (WARNING, Conflict_time_column, toid)]\<rparr>"
  using assms
  by (simp add: ensure_legacy_behavior_def table_has_implicit_time_valid
      check_column_name_conflicts_def elog_def)

text \<open>
  Claim C6. The code does not do what the claim says. The table \<open>orders\<close> is an
  ordinary heap table with a declared, non-dropped column \<open>time\<close> of type \<open>int4\<close>,
  which is not the implicit column's type. \<open>check_backward_compatibility\<close> ends in
  the read through the \<open>NULL\<close> class tuple, before the collision check: it gives no
  verdict and logs no warning. The same collision check, reached through
  \<open>ensure_legacy_behavior\<close>, logs the warning for this table.
\<close>

theorem name_conflict_check_crashes:
  "pg_class conflict_backend 16384 = Some orders_class
   \<and> relkind orders_class = RELKIND_RELATION
   \<and> pg_attribute conflict_backend (16384, ''time'') =
       Some \<lparr>atttypid = 23, attisdropped = False\<rparr>
   \<and> (23 :: Oid) \<noteq> TIMESTAMPOID
   \<and> check_backward_compatibility 16384 conflict_backend = (Inl SIGSEGV, conflict_backend)
   \<and> server_log (ensure_legacy_behavior 16384 conflict_backend) =
       [(DEBUG1, Has_result False, 16384),
        (DEBUG2, Legacy_no_implicit, 16384),
        (WARNING, Conflict_time_column, 16384)]"
proof -
  have c: "pg_class conflict_backend 16384 = Some orders_class"
    by (simp add: conflict_backend_def fresh_backend_def)
  have k: "relkind orders_class = RELKIND_RELATION"
    by (simp add: orders_class_def RELKIND_RELATION_def)
  have a: "pg_attribute conflict_backend (16384, ''time'') =
       Some \<lparr>atttypid = 23, attisdropped = False\<rparr>"
    by (simp add: conflict_backend_def fresh_backend_def)
  have ty: "(23 :: Oid) \<noteq> TIMESTAMPOID"
    by (simp add: TIMESTAMPOID_def)
  have v: "OidIsValid 16384" by (simp add: OidIsValid_def InvalidOid_def)
  have u: "\<not> IsCatalogRelationOid 16384"
    by (simp add: IsCatalogRelationOid_def FirstUnpinnedObjectId_def)
  have chk: "check_backward_compatibility 16384 conflict_backend =
      (Inl SIGSEGV, conflict_backend)"
    using check_backward_compatibility_ordinary_table [OF v c k] u by simp
  have td: "time_descriptors 16384 conflict_backend = []"
    by (simp add: time_descriptors_def scan_relid_attname_def conflict_backend_def
        fresh_backend_def)
  have "server_log (ensure_legacy_behavior 16384 conflict_backend) =
       server_log conflict_backend @
       [(DEBUG1, Has_result False, 16384),
        (DEBUG2, Legacy_no_implicit, 16384),
        (WARNING, Conflict_time_column, 16384)]"
    using ensure_legacy_behavior_warns [OF v td a] ty by simp
  then have leg: "server_log (ensure_legacy_behavior 16384 conflict_backend) =
       [(DEBUG1, Has_result False, 16384),
        (DEBUG2, Legacy_no_implicit, 16384),
        (WARNING, Conflict_time_column, 16384)]"
    by (simp add: conflict_backend_def fresh_backend_def)
  from c k a ty chk leg show ?thesis by blast
qed

section \<open>Truncation of the current timestamp\<close>

lemma sdiv_usecs_nonneg:
  fixes n :: int
  assumes "0 \<le> n"
  shows "(n sdiv 1000000) * 1000000 = n - n mod 1000000"
proof -
  have "n sdiv 1000000 = n div 1000000"
    using assms by (cases "n = 0") (simp_all add: signed_divide_int_def)
  moreover have "n div 1000000 * 1000000 + n mod 1000000 = n"
    by (rule div_mult_mod_eq)
  ultimately show ?thesis by linarith
qed

lemma sdiv_usecs_neg:
  fixes n :: int
  assumes "n < 0"
  shows "(n sdiv 1000000) * 1000000 = n + (- n) mod 1000000"
proof -
  have "n sdiv 1000000 = - ((- n) div 1000000)"
    using assms by (simp add: signed_divide_int_def)
  moreover have "(- n) div 1000000 * 1000000 + (- n) mod 1000000 = - n"
    by (rule div_mult_mod_eq)
  ultimately show ?thesis by linarith
qed

lemma smod_usecs:
  fixes n :: int
  shows "n smod 1000000 = (if 0 \<le> n then n mod 1000000 else - ((- n) mod 1000000))"
  by (cases "n = 0") (auto simp: signed_modulo_int_def)

lemma truncate_usecs_facts:
  fixes n :: int
  defines "r \<equiv> (n sdiv 1000000) * 1000000"
  shows "1000000 dvd r"
    and "r = n - n smod 1000000"
    and "\<bar>r\<bar> \<le> \<bar>n\<bar>"
    and "\<bar>n - r\<bar> < 1000000"
    and "0 \<le> n \<Longrightarrow> r \<le> n"
    and "n < 0 \<Longrightarrow> n \<le> r \<and> r \<le> 0"
proof -
  show "1000000 dvd r" by (simp add: r_def)
  have m1: "0 \<le> n mod 1000000" "n mod 1000000 < 1000000"
    by simp_all
  have m2: "0 \<le> (- n) mod 1000000" "(- n) mod 1000000 < 1000000"
    by simp_all
  have pos: "0 \<le> n \<Longrightarrow> r = n - n mod 1000000"
    unfolding r_def by (rule sdiv_usecs_nonneg)
  have neg: "n < 0 \<Longrightarrow> r = n + (- n) mod 1000000"
    unfolding r_def by (rule sdiv_usecs_neg)
  have le1: "0 \<le> n \<Longrightarrow> n mod 1000000 \<le> n"
    by (rule zmod_le_nonneg_dividend)
  have le2: "n < 0 \<Longrightarrow> (- n) mod 1000000 \<le> - n"
    by (rule zmod_le_nonneg_dividend) simp
  show "r = n - n smod 1000000"
    using pos neg by (cases "0 \<le> n") (simp_all add: smod_usecs)
  show "\<bar>r\<bar> \<le> \<bar>n\<bar>"
    using pos neg m1 m2 le1 le2 by (cases "0 \<le> n") simp_all
  show "\<bar>n - r\<bar> < 1000000"
    using pos neg m1 m2 by (cases "0 \<le> n") simp_all
  show "0 \<le> n \<Longrightarrow> r \<le> n"
    using pos m1 by simp
  show "n < 0 \<Longrightarrow> n \<le> r \<and> r \<le> 0"
    using neg m2 le2 by simp
qed

lemma sint_truncate_usecs:
  fixes now :: "64 word"
  shows "sint (word_of_int ((sint now sdiv 1000000) * 1000000) :: 64 word) =
           (sint now sdiv 1000000) * 1000000"
proof -
  let ?r = "(sint now sdiv 1000000) * 1000000"
  have lo: "- (2 ^ 63) \<le> sint now" using sint_ge [of now] by simp
  have hi: "sint now < 2 ^ 63" using sint_lt [of now] by simp
  have "\<bar>?r\<bar> \<le> \<bar>sint now\<bar>" by (rule truncate_usecs_facts)
  moreover have "sint now < 0 \<Longrightarrow> sint now \<le> ?r \<and> ?r \<le> 0"
    by (rule truncate_usecs_facts)
  ultimately have "- (2 ^ 63) \<le> ?r" and "?r < 2 ^ 63"
    using lo hi by (cases "sint now < 0"; linarith)+
  then have fits: "signed_take_bit 63 ?r = ?r"
    by (intro signed_take_bit_int_eq_self) simp_all
  have "sint (word_of_int ?r :: 64 word) = signed_take_bit (LENGTH(64) - 1) ?r"
    by (rule sint_sbintrunc')
  also have "\<dots> = ?r"
    using fits by simp
  finally show ?thesis .
qed

text \<open>The function returns a timestamp whenever the host's conversion does.\<close>

lemma get_current_timestamp_returns:
  assumes "timestamptz_timestamp (clock s (clock_reads s)) = Inr now"
  shows "get_current_timestamp timestamptz_timestamp s =
           (Inr (word_of_int ((sint now sdiv USECS_PER_SEC) * USECS_PER_SEC)),
            s\<lparr>clock_reads := Suc (clock_reads s)\<rparr>)"
  using assms by (simp add: get_current_timestamp_def GetCurrentTimestamp_def)

text \<open>
  Claim C7. Every timestamp that \<open>get_current_timestamp\<close> returns is an exact
  integer multiple of \<open>USECS_PER_SEC\<close>. It is the converted clock reading with its
  sub-second remainder (C's \<open>%\<close>) taken away, without overflow: it never exceeds the
  reading in magnitude, differs from it by less than one second, and for a reading
  at or after the epoch it is the largest whole second not after the reading, so it
  is never rounded up to the next second. (For a reading before the epoch, C's
  division truncates towards zero.)
\<close>

theorem get_current_timestamp_whole_seconds:
  assumes "get_current_timestamp timestamptz_timestamp s = (Inr ts, s')"
  shows "\<exists>now. timestamptz_timestamp (clock s (clock_reads s)) = Inr now
           \<and> USECS_PER_SEC dvd sint ts
           \<and> sint ts = (sint now sdiv USECS_PER_SEC) * USECS_PER_SEC
           \<and> sint ts = sint now - sint now smod USECS_PER_SEC
           \<and> \<bar>sint ts\<bar> \<le> \<bar>sint now\<bar>
           \<and> \<bar>sint now - sint ts\<bar> < USECS_PER_SEC
           \<and> (0 \<le> sint now \<longrightarrow> sint ts \<le> sint now)
           \<and> (sint now < 0 \<longrightarrow> sint now \<le> sint ts \<and> sint ts \<le> 0)"
proof -
  from assms obtain now where
    conv: "timestamptz_timestamp (clock s (clock_reads s)) = Inr now" and
    ts: "ts = word_of_int ((sint now sdiv 1000000) * 1000000)"
    by (auto simp: get_current_timestamp_def GetCurrentTimestamp_def USECS_PER_SEC_def
        split: sum.splits)
  have val: "sint ts = (sint now sdiv 1000000) * 1000000"
    unfolding ts by (rule sint_truncate_usecs)
  have "1000000 dvd sint ts"
    and "sint ts = sint now - sint now smod 1000000"
    and "\<bar>sint ts\<bar> \<le> \<bar>sint now\<bar>"
    and "\<bar>sint now - sint ts\<bar> < 1000000"
    and "0 \<le> sint now \<longrightarrow> sint ts \<le> sint now"
    and "sint now < 0 \<longrightarrow> sint now \<le> sint ts \<and> sint ts \<le> 0"
    unfolding val using truncate_usecs_facts [of "sint now"] by blast+
  with conv val show ?thesis
    unfolding USECS_PER_SEC_def by blast
qed

theorem get_current_timestamp_whole_seconds_witness:
  "get_current_timestamp utc_conversion late_backend =
     (Inr 1000000, late_backend\<lparr>clock_reads := 1\<rparr>)
   \<and> USECS_PER_SEC dvd sint (1000000 :: Timestamp)
   \<and> sint (1000000 :: Timestamp) \<le> sint (1999999 :: Timestamp)"
proof -
  have run: "get_current_timestamp utc_conversion late_backend =
     (Inr 1000000, late_backend\<lparr>clock_reads := 1\<rparr>)"
    by (simp add: get_current_timestamp_def GetCurrentTimestamp_def utc_conversion_def
        late_backend_def fresh_backend_def USECS_PER_SEC_def signed_divide_int_def)
  from get_current_timestamp_whole_seconds [OF run]
  have "USECS_PER_SEC dvd sint (1000000 :: Timestamp)
      \<and> sint (1000000 :: Timestamp) \<le> sint (1999999 :: Timestamp)"
    by (simp add: utc_conversion_def late_backend_def fresh_backend_def)
  with run show ?thesis by simp
qed

section \<open>The snapshot of a table's implicit columns\<close>

lemma info_loop_facts:
  assumes "info_loop rows info s = (info', s')"
  shows "map (map_option (\<lambda>c. (column_name c, attnum c))) (implicit_columns info') =
           map (map_option (\<lambda>c. (column_name c, attnum c))) (implicit_columns info)
             @ map (\<lambda>form. Some (ic_attname form, ic_attnum form)) rows
       \<and> num_implicit_cols info' = num_implicit_cols info + of_nat (length rows)
       \<and> has_implicit_time info' =
           (has_implicit_time info
            \<or> (\<exists>form \<in> set rows. ic_attname form = IMPLICIT_TIME_COLUMN_NAME))
       \<and> time_attnum info' =
           (if \<exists>form \<in> set rows. ic_attname form = IMPLICIT_TIME_COLUMN_NAME
            then ic_attnum (last (filter (\<lambda>form. ic_attname form = IMPLICIT_TIME_COLUMN_NAME) rows))
            else time_attnum info)
       \<and> table_oid info' = table_oid info
       \<and> pg_implicit_columns s' = pg_implicit_columns s"
  using assms
proof (induction rows arbitrary: info s)
  case Nil
  then show ?case by simp
next
  case (Cons form rest)
  let ?col = "Some \<lparr>column_name = ic_attname form, column_type = ic_atttypid form,
                     attnum = ic_attnum form, is_active = True,
                     created_time = clock s (clock_reads s)\<rparr>"
  let ?s1 = "s\<lparr>clock_reads := Suc (clock_reads s)\<rparr>"
  let ?info1 = "info\<lparr>implicit_columns := implicit_columns info @ [?col],
                       num_implicit_cols := num_implicit_cols info + 1\<rparr>"
  let ?info2 = "if ic_attname form = IMPLICIT_TIME_COLUMN_NAME
                then ?info1\<lparr>has_implicit_time := True, time_attnum := ic_attnum form\<rparr>
                else ?info1"
  have step: "info_loop (form # rest) info s = info_loop rest ?info2 ?s1"
    by (simp add: create_implicit_column_def GetCurrentTimestamp_def Let_def)
  have run: "info_loop rest ?info2 ?s1 = (info', s')"
    using Cons.prems unfolding step .
  note IH = Cons.IH [OF run]
  show ?case
  proof (cases "ic_attname form = IMPLICIT_TIME_COLUMN_NAME")
    case True
    with IH show ?thesis by (auto simp: filter_empty_conv)
  next
    case False
    with IH show ?thesis by auto
  qed
qed

lemma get_table_implicit_info_invalid:
  "\<not> OidIsValid toid \<Longrightarrow> get_table_implicit_info toid s = (None, s)"
  by (simp add: get_table_implicit_info_def)

lemma get_table_implicit_info_valid:
  assumes "OidIsValid toid"
  shows "\<exists>info s'. get_table_implicit_info toid s = (Some info, s')
           \<and> info_loop (scan_relid toid s)
                \<lparr>table_oid = toid, has_implicit_time = False,
                  time_attnum = InvalidAttrNumber, implicit_columns = [],
                  num_implicit_cols = 0\<rparr> s = (info, s')"
  using assms
  by (cases "info_loop (scan_relid toid s)
                \<lparr>table_oid = toid, has_implicit_time = False,
                  time_attnum = InvalidAttrNumber, implicit_columns = [],
                  num_implicit_cols = 0\<rparr> s")
     (simp add: get_table_implicit_info_def)

lemma get_table_implicit_info_Some:
  assumes "get_table_implicit_info toid s = (Some info, s')"
  shows "OidIsValid toid
       \<and> info_loop (scan_relid toid s)
                \<lparr>table_oid = toid, has_implicit_time = False,
                  time_attnum = InvalidAttrNumber, implicit_columns = [],
                  num_implicit_cols = 0\<rparr> s = (info, s')"
  using assms
  by (auto simp: get_table_implicit_info_def Let_def split: if_splits prod.splits)

lemma snapshot_columns:
  assumes "get_table_implicit_info toid s = (Some info, s')"
  shows "map (map_option (\<lambda>c. (column_name c, attnum c))) (implicit_columns info) =
           map (\<lambda>form. Some (ic_attname form, ic_attnum form)) (scan_relid toid s)"
  using info_loop_facts [OF get_table_implicit_info_Some [OF assms, THEN conjunct2]]
  by simp

text \<open>
  Claim C9. For an invalid table identity \<open>get_table_implicit_info\<close> returns
  \<open>NULL\<close> and touches nothing; for every valid identity it returns a snapshot of
  that table. The empty snapshot is what a valid table without descriptors gets, and
  a snapshot with an empty column list is returned only for a valid table without
  descriptors.
\<close>

theorem get_table_implicit_info_null_only_for_invalid:
  "(\<not> OidIsValid toid \<longrightarrow> get_table_implicit_info toid s = (None, s))
   \<and> (OidIsValid toid \<longrightarrow>
        (\<exists>info s'. get_table_implicit_info toid s = (Some info, s') \<and> table_oid info = toid))
   \<and> (OidIsValid toid \<and> scan_relid toid s = [] \<longrightarrow>
        get_table_implicit_info toid s =
          (Some \<lparr>table_oid = toid, has_implicit_time = False,
                  time_attnum = InvalidAttrNumber, implicit_columns = [],
                  num_implicit_cols = 0\<rparr>, s))
   \<and> (\<forall>info s'. get_table_implicit_info toid s = (Some info, s')
          \<and> implicit_columns info = [] \<longrightarrow> OidIsValid toid \<and> scan_relid toid s = [])"
proof (intro conjI impI allI)
  assume "\<not> OidIsValid toid"
  then show "get_table_implicit_info toid s = (None, s)"
    by (rule get_table_implicit_info_invalid)
next
  assume "OidIsValid toid"
  from get_table_implicit_info_valid [OF this, of s]
  obtain info s' where g: "get_table_implicit_info toid s = (Some info, s')"
    and l: "info_loop (scan_relid toid s)
                \<lparr>table_oid = toid, has_implicit_time = False,
                  time_attnum = InvalidAttrNumber, implicit_columns = [],
                  num_implicit_cols = 0\<rparr> s = (info, s')"
    by blast
  from info_loop_facts [OF l] have "table_oid info = toid" by simp
  with g show "\<exists>info s'. get_table_implicit_info toid s = (Some info, s') \<and> table_oid info = toid"
    by blast
next
  assume "OidIsValid toid \<and> scan_relid toid s = []"
  then show "get_table_implicit_info toid s =
          (Some \<lparr>table_oid = toid, has_implicit_time = False,
                  time_attnum = InvalidAttrNumber, implicit_columns = [],
                  num_implicit_cols = 0\<rparr>, s)"
    by (simp add: get_table_implicit_info_def)
next
  fix info s'
  assume a: "get_table_implicit_info toid s = (Some info, s') \<and> implicit_columns info = []"
  then have g: "get_table_implicit_info toid s = (Some info, s')" by simp
  from snapshot_columns [OF g] a have "scan_relid toid s = []" by simp
  with get_table_implicit_info_Some [OF g]
  show "OidIsValid toid" and "scan_relid toid s = []" by simp_all
qed

theorem get_table_implicit_info_null_only_for_invalid_witness:
  "\<not> OidIsValid InvalidOid
   \<and> get_table_implicit_info InvalidOid orders_backend = (None, orders_backend)
   \<and> OidIsValid 16390 \<and> scan_relid 16390 orders_backend = []
   \<and> get_table_implicit_info 16390 orders_backend =
          (Some \<lparr>table_oid = 16390, has_implicit_time = False,
                  time_attnum = InvalidAttrNumber, implicit_columns = [],
                  num_implicit_cols = 0\<rparr>, orders_backend)"
proof -
  have h1: "\<not> OidIsValid InvalidOid" by (simp add: OidIsValid_def)
  have h2: "OidIsValid 16390 \<and> scan_relid 16390 orders_backend = []"
    by (simp add: OidIsValid_def InvalidOid_def scan_relid_def orders_backend_def
        fresh_backend_def)
  from get_table_implicit_info_null_only_for_invalid [of InvalidOid orders_backend] h1
  have a: "get_table_implicit_info InvalidOid orders_backend = (None, orders_backend)"
    by blast
  from get_table_implicit_info_null_only_for_invalid [of 16390 orders_backend] h2
  have b: "get_table_implicit_info 16390 orders_backend =
          (Some \<lparr>table_oid = 16390, has_implicit_time = False,
                  time_attnum = InvalidAttrNumber, implicit_columns = [],
                  num_implicit_cols = 0\<rparr>, orders_backend)"
    by blast
  from h1 h2 a b show ?thesis by blast
qed



lemma snapshot_entry_iff:
  assumes "get_table_implicit_info toid s = (Some info, s')"
  shows "(\<exists>c. Some c \<in> set (implicit_columns info) \<and> column_name c = n \<and> attnum c = a) =
         (\<exists>form \<in> set (scan_relid toid s). ic_attname form = n \<and> ic_attnum form = a)"
proof -
  let ?g = "\<lambda>c. (column_name c, attnum c)"
  have "(\<exists>c. Some c \<in> set (implicit_columns info) \<and> column_name c = n \<and> attnum c = a) =
        (Some (n, a) \<in> set (map (map_option ?g) (implicit_columns info)))"
    by (force simp: image_iff map_option_case split: option.splits)
  also have "\<dots> = (Some (n, a) \<in> set (map (\<lambda>form. Some (ic_attname form, ic_attnum form))
                       (scan_relid toid s)))"
    by (simp only: snapshot_columns [OF assms])
  also have "\<dots> = (\<exists>form \<in> set (scan_relid toid s). ic_attname form = n \<and> ic_attnum form = a)"
    by (auto simp: image_iff)
  finally show ?thesis .
qed

lemma snapshot_no_null_entry:
  assumes "get_table_implicit_info toid s = (Some info, s')"
  shows "None \<notin> set (implicit_columns info)"
proof
  assume "None \<in> set (implicit_columns info)"
  then have "None \<in> set (map (map_option (\<lambda>c. (column_name c, attnum c))) (implicit_columns info))"
    by (force simp: image_iff)
  then show False
    by (simp add: snapshot_columns [OF assms] image_iff)
qed

lemma sint_of_nat_32:
  assumes "n < 2 ^ 31"
  shows "sint (of_nat n :: 32 word) = int n"
proof -
  have "sint (word_of_int (int n) :: 32 word) = signed_take_bit (LENGTH(32) - 1) (int n)"
    by (rule sint_sbintrunc')
  also have "\<dots> = int n"
  proof -
    have "int n < 2 ^ 31" using assms by (simp add: of_nat_less_iff [of n "2 ^ 31", symmetric] del: of_nat_less_iff)
    then have "signed_take_bit 31 (int n) = int n"
      by (intro signed_take_bit_int_eq_self) simp_all
    then show ?thesis by simp
  qed
  finally show ?thesis by simp
qed

lemma scan_relid_time_rows:
  "filter (\<lambda>form. ic_attname form = IMPLICIT_TIME_COLUMN_NAME) (scan_relid toid s) =
     time_descriptors toid s"
  by (simp add: scan_relid_def time_descriptors_def scan_relid_attname_def conj_commute)

lemma length_le_one_all_last:
  assumes "length xs \<le> 1" and "x \<in> set xs"
  shows "x = last xs"
  using assms by (cases xs) auto

text \<open>
  Claim C10. Every snapshot that \<open>get_table_implicit_info\<close> returns is consistent:
  \<open>num_implicit_cols\<close> is the number of entries of \<open>implicit_columns\<close> (as a C
  \<open>int\<close>, hence exactly for fewer than \<open>2^31\<close> entries), no entry is \<open>NULL\<close>,
  \<open>has_implicit_time\<close> holds if and only if an entry named \<open>time\<close> is in the list,
  in which case \<open>time_attnum\<close> is the attribute number of such an entry (of every such
  entry when the catalog satisfies its unique index), and otherwise \<open>time_attnum\<close> is
  the invalid sentinel.
\<close>

theorem get_table_implicit_info_consistent:
  assumes "get_table_implicit_info toid s = (Some info, s')"
  shows "num_implicit_cols info = of_nat (length (implicit_columns info))
       \<and> (length (implicit_columns info) < 2 ^ 31 \<longrightarrow>
            sint (num_implicit_cols info) = int (length (implicit_columns info)))
       \<and> None \<notin> set (implicit_columns info)
       \<and> has_implicit_time info =
            (\<exists>c. Some c \<in> set (implicit_columns info)
                \<and> column_name c = IMPLICIT_TIME_COLUMN_NAME)
       \<and> (has_implicit_time info \<longrightarrow>
            (\<exists>c. Some c \<in> set (implicit_columns info)
                \<and> column_name c = IMPLICIT_TIME_COLUMN_NAME
                \<and> attnum c = time_attnum info))
       \<and> (has_implicit_time info \<and> unique_index s \<longrightarrow>
            (\<forall>c. Some c \<in> set (implicit_columns info)
                \<and> column_name c = IMPLICIT_TIME_COLUMN_NAME
                \<longrightarrow> attnum c = time_attnum info))
       \<and> (\<not> has_implicit_time info \<longrightarrow> time_attnum info = InvalidAttrNumber)"
proof -
  let ?rows = "scan_relid toid s"
  let ?times = "time_descriptors toid s"
  note loop = info_loop_facts [OF get_table_implicit_info_Some [OF assms, THEN conjunct2]]
  have len: "length (implicit_columns info) = length ?rows"
    using arg_cong [OF snapshot_columns [OF assms], of length] by simp
  have num: "num_implicit_cols info = of_nat (length (implicit_columns info))"
    using loop len by simp
  have num_int: "length (implicit_columns info) < 2 ^ 31 \<longrightarrow>
            sint (num_implicit_cols info) = int (length (implicit_columns info))"
    unfolding num by (simp add: sint_of_nat_32)
  have ex_time: "(\<exists>form \<in> set ?rows. ic_attname form = IMPLICIT_TIME_COLUMN_NAME) =
      (?times \<noteq> [])"
    unfolding scan_relid_time_rows [symmetric] by (simp add: filter_empty_conv)
  have has_rows: "has_implicit_time info = (?times \<noteq> [])"
    using loop by (simp add: ex_time)
  have att: "time_attnum info =
      (if ?times \<noteq> [] then ic_attnum (last ?times) else InvalidAttrNumber)"
    using loop by (simp add: ex_time scan_relid_time_rows)
  have times_set: "set ?times =
      {form \<in> set ?rows. ic_attname form = IMPLICIT_TIME_COLUMN_NAME}"
    by (simp add: scan_relid_time_rows [symmetric])
  have has_iff: "has_implicit_time info =
            (\<exists>c. Some c \<in> set (implicit_columns info)
                \<and> column_name c = IMPLICIT_TIME_COLUMN_NAME)"
  proof -
    have "(\<exists>c. Some c \<in> set (implicit_columns info)
                \<and> column_name c = IMPLICIT_TIME_COLUMN_NAME) =
          (\<exists>a c. Some c \<in> set (implicit_columns info)
                \<and> column_name c = IMPLICIT_TIME_COLUMN_NAME \<and> attnum c = a)"
      by blast
    also have "\<dots> = (\<exists>a. \<exists>form \<in> set ?rows.
         ic_attname form = IMPLICIT_TIME_COLUMN_NAME \<and> ic_attnum form = a)"
      using snapshot_entry_iff [OF assms, of IMPLICIT_TIME_COLUMN_NAME] by blast
    also have "\<dots> = (set ?times \<noteq> {})"
      unfolding times_set by blast
    finally show ?thesis using has_rows by simp
  qed
  have some_entry: "has_implicit_time info \<longrightarrow>
            (\<exists>c. Some c \<in> set (implicit_columns info)
                \<and> column_name c = IMPLICIT_TIME_COLUMN_NAME
                \<and> attnum c = time_attnum info)"
  proof
    assume "has_implicit_time info"
    then have ne: "?times \<noteq> []" using has_rows by simp
    then have "last ?times \<in> set ?times" by simp
    then have "last ?times \<in> set ?rows"
      and "ic_attname (last ?times) = IMPLICIT_TIME_COLUMN_NAME"
      unfolding times_set by simp_all
    moreover have "ic_attnum (last ?times) = time_attnum info"
      using att ne by simp
    ultimately have "\<exists>form \<in> set ?rows. ic_attname form = IMPLICIT_TIME_COLUMN_NAME
        \<and> ic_attnum form = time_attnum info"
      by blast
    then show "\<exists>c. Some c \<in> set (implicit_columns info)
                \<and> column_name c = IMPLICIT_TIME_COLUMN_NAME
                \<and> attnum c = time_attnum info"
      by (simp only: snapshot_entry_iff [OF assms])
  qed
  have every_entry: "has_implicit_time info \<and> unique_index s \<longrightarrow>
            (\<forall>c. Some c \<in> set (implicit_columns info)
                \<and> column_name c = IMPLICIT_TIME_COLUMN_NAME
                \<longrightarrow> attnum c = time_attnum info)"
  proof (intro impI allI)
    fix c
    assume hu: "has_implicit_time info \<and> unique_index s"
      and c: "Some c \<in> set (implicit_columns info)
                \<and> column_name c = IMPLICIT_TIME_COLUMN_NAME"
    from c have "\<exists>c'. Some c' \<in> set (implicit_columns info)
        \<and> column_name c' = IMPLICIT_TIME_COLUMN_NAME \<and> attnum c' = attnum c"
      by blast
    then obtain form where f: "form \<in> set ?rows"
      "ic_attname form = IMPLICIT_TIME_COLUMN_NAME" "ic_attnum form = attnum c"
      unfolding snapshot_entry_iff [OF assms] by blast
    then have "form \<in> set ?times" unfolding times_set by simp
    moreover have "length ?times \<le> 1"
      using hu by (intro unique_index_time_descriptors) simp
    ultimately have "form = last ?times" by (rule length_le_one_all_last [rotated])
    moreover have "?times \<noteq> []" using hu has_rows by simp
    ultimately show "attnum c = time_attnum info"
      using att f by simp
  qed
  have sentinel: "\<not> has_implicit_time info \<longrightarrow> time_attnum info = InvalidAttrNumber"
    using has_rows att by simp
  from num num_int snapshot_no_null_entry [OF assms] has_iff some_entry every_entry sentinel
  show ?thesis by blast
qed

theorem get_table_implicit_info_consistent_witness:
  "fst (get_table_implicit_info 16384 orders_backend) =
     Some \<lparr>table_oid = 16384, has_implicit_time = True, time_attnum = 3,
            implicit_columns =
              [Some \<lparr>column_name = ''time'', column_type = 1114, attnum = 3,
                      is_active = True, created_time = 0\<rparr>],
            num_implicit_cols = 1\<rparr>
   \<and> num_implicit_cols (the (fst (get_table_implicit_info 16384 orders_backend))) =
       of_nat (length (implicit_columns
          (the (fst (get_table_implicit_info 16384 orders_backend)))))"
proof -
  have run: "get_table_implicit_info 16384 orders_backend =
     (Some \<lparr>table_oid = 16384, has_implicit_time = True, time_attnum = 3,
            implicit_columns =
              [Some \<lparr>column_name = ''time'', column_type = 1114, attnum = 3,
                      is_active = True, created_time = 0\<rparr>],
            num_implicit_cols = 1\<rparr>, orders_backend\<lparr>clock_reads := 1\<rparr>)"
    by (simp add: get_table_implicit_info_def OidIsValid_def InvalidOid_def scan_relid_def
        orders_backend_def fresh_backend_def create_implicit_column_def
        GetCurrentTimestamp_def IMPLICIT_TIME_COLUMN_NAME_def InvalidAttrNumber_def Let_def)
  from get_table_implicit_info_consistent [OF run] run show ?thesis
    by simp
qed

section \<open>Invisibility under wildcard projection\<close>





lemma of_nat_16_inj:
  assumes "i < 65536" and "j < 65536"
  shows "(of_nat i = (of_nat j :: 16 word)) = (i = j)"
proof -
  have "take_bit 16 i = i" "take_bit 16 j = j"
    using assms by (simp_all add: take_bit_nat_eq_self)
  then show ?thesis
    by (simp add: word_of_nat_eq_iff)
qed

lemma physical_row_declared_numbers:
  assumes "attr \<in> set (zip (map of_nat [1 ..< Suc (length declared)]) declared)"
    and "length declared < 32767"
  shows "fst attr \<noteq> (of_nat (Suc (length declared)) :: 16 word)"
proof -
  obtain a b where ab: "attr = (a, b)" by (cases attr)
  from assms(1) have "a \<in> set (map of_nat [1 ..< Suc (length declared)])"
    unfolding ab by (rule set_zip_leftD)
  then have "fst attr \<in> of_nat ` {1 ..< Suc (length declared)}"
    by (simp add: ab del: upt_Suc of_nat_Suc)
  then obtain i where i: "fst attr = of_nat i" "1 \<le> i" "i \<le> length declared"
    by auto
  have "of_nat i \<noteq> (of_nat (Suc (length declared)) :: 16 word)"
    using i assms(2) by (subst of_nat_16_inj) simp_all
  with i show ?thesis by simp
qed

text \<open>
  For any number of declared columns: when the only hidden attribute number of the
  table is the one after the declared columns, the wildcard projection of a physical
  row is exactly its declared part, and an explicit reference to the implicit
  attribute number yields the implicit value.
\<close>

lemma wildcard_projection_physical_row:
  assumes "hidden_attnums toid s = [of_nat (Suc (length declared))]"
    and "length declared < 32767"
  shows "wildcard_projection toid s (physical_row declared v) =
           zip (map of_nat [1 ..< Suc (length declared)]) declared"
proof -
  have "filter (\<lambda>attr. fst attr \<noteq> (of_nat (Suc (length declared)) :: 16 word))
          (zip (map of_nat [1 ..< Suc (length declared)]) declared) =
        zip (map of_nat [1 ..< Suc (length declared)]) declared"
    using physical_row_declared_numbers [OF _ assms(2)]
    by (intro filter_True) blast
  then show ?thesis
    by (simp add: wildcard_projection_def physical_row_def assms(1) del: upt_Suc of_nat_Suc)
qed

lemma explicit_reference_physical_row:
  assumes "length declared < 32767"
  shows "explicit_reference (physical_row declared v) (of_nat (Suc (length declared))) = Some v"
proof -
  let ?k = "of_nat (Suc (length declared)) :: 16 word"
  let ?xs = "zip (map of_nat [1 ..< Suc (length declared)]) declared"
  have "?k \<notin> fst ` set ?xs"
    using physical_row_declared_numbers [OF _ assms] by force
  then have none: "map_of ?xs ?k = None"
    by (simp only: map_of_eq_None_iff not_False_eq_True)
  have "explicit_reference (physical_row declared v) ?k =
      (map_of [(?k, v)] ++ map_of ?xs) ?k"
    unfolding explicit_reference_def physical_row_def by (simp only: map_of_append)
  also have "\<dots> = map_of [(?k, v)] ?k"
    by (simp only: map_add_def none option.simps)
  also have "\<dots> = Some v"
    by (simp del: of_nat_Suc)
  finally show ?thesis .
qed

text \<open>
  After \<open>add_implicit_time_column\<close> on a table without implicit columns, the hidden
  attribute number is the one after the declared columns, so a wildcard projection
  returns the declared columns only.
\<close>

lemma hidden_attnums_after_add:
  assumes "scan_relid (rd_id r) s = []"
  shows "hidden_attnums (rd_id r) (snd (add_implicit_time_column (Some r) s)) =
           [RelationGetNumberOfAttributes r + 1]"
proof -
  have none: "filter (\<lambda>form. ic_relid form = rd_id r) (pg_implicit_columns s) = []"
    using assms by (simp add: scan_relid_def)
  then have "time_descriptors (rd_id r) s = []"
    by (auto simp: time_descriptors_def scan_relid_attname_def filter_empty_conv)
  from add_implicit_time_column_fresh [OF this] none show ?thesis
    by (simp add: hidden_attnums_def scan_relid_def)
qed

lemma wildcard_projection_after_add:
  assumes "scan_relid (rd_id r) s = []"
    and "RelationGetNumberOfAttributes r = of_nat (length declared)"
    and "length declared < 32767"
  shows "wildcard_projection (rd_id r) (snd (add_implicit_time_column (Some r) s))
           (physical_row declared v) =
         zip (map of_nat [1 ..< Suc (length declared)]) declared"
proof -
  have "hidden_attnums (rd_id r) (snd (add_implicit_time_column (Some r) s)) =
      [of_nat (Suc (length declared))]"
    using hidden_attnums_after_add [OF assms(1)] assms(2) by simp
  then show ?thesis
    using assms(3) by (rule wildcard_projection_physical_row)
qed

section \<open>The scan with implicit columns\<close>

text \<open>
  \<open>ExecScanWithImplicitColumns\<close> takes no part in shaping the result: it hands on the
  slot of the standard scan as it is, or raises the host's error for an attribute
  number above the slot's descriptor, and it changes no catalog row.
\<close>

lemma get_implicit_time_attnum_catalog [simp]:
  "pg_implicit_columns (snd (get_implicit_time_attnum toid s)) = pg_implicit_columns s"
  by (simp add: get_implicit_time_attnum_def Let_def)

lemma ExecScanWithImplicitColumns_result:
  "fst (ExecScanWithImplicitColumns node scanned s) = Inr scanned
   \<or> fst (ExecScanWithImplicitColumns node scanned s) = Inl (ERROR Invalid_attribute_number)"
  by (auto simp: ExecScanWithImplicitColumns_def Let_def slot_getattr_def
      split: option.splits prod.splits sum.splits if_splits)

lemma ExecScanWithImplicitColumns_catalog:
  "pg_implicit_columns (snd (ExecScanWithImplicitColumns node scanned s)) =
     pg_implicit_columns s"
  by (simp add: ExecScanWithImplicitColumns_def Let_def case_prod_beta
      split: option.splits sum.splits)

end
